theory Spec2Isabelle
  imports Complex_Main
begin

section \<open>The interview client: data model\<close>

text \<open>
  The development embeds the React component \<open>App\<close> of the later revision of the client
  (the one with the transcript archive). The earlier revision has the same message handler,
  the same capture callback and the same close handler; it differs in the status texts and
  has no archive.

  JavaScript numbers that carry times in seconds (\<open>nextStartTimeRef\<close>,
  \<open>AudioContext.currentTime\<close>, \<open>AudioBuffer.duration\<close>) are modelled as \<^typ>\<open>real\<close>:
  the rounding of IEEE doubles is not modelled. \<open>Date.now()\<close> is a natural number of
  milliseconds.
\<close>

subsection \<open>types.ts\<close>

datatype Speaker = USER | MODEL | SYSTEM

text \<open>\<open>ChatMessage\<close>; the optional \<open>isPartial\<close> is falsy when absent, hence a \<^typ>\<open>bool\<close>.\<close>

record ChatMessage =
  id_msg :: string
  speaker :: Speaker
  text_msg :: string
  isPartial :: bool

record SavedTranscriptSession =
  id_session :: string
  timestamp :: nat
  messages_session :: "ChatMessage list"

subsection \<open>Inbound messages\<close>

text \<open>
  The fields of \<open>LiveServerMessage\<close> that the handler reads. A transcription field is
  \<open>Some text\<close> when the field is present (a missing \<open>text\<close> is the empty string: both are
  falsy and nothing else is asked of it). A part is \<open>inlineData?.data\<close>; a content holds
  \<open>parts\<close>, which the type leaves optional. The message is \<open>serverContent\<close>, optional too.
\<close>

type_synonym Part = "string option"

type_synonym Content = "Part list option"

record ServerContent =
  inputTranscription :: "string option"
  outputTranscription :: "string option"
  modelTurn :: "Content option"
  turnComplete :: bool
  interrupted :: bool

type_synonym LiveServerMessage = "ServerContent option"

text \<open>What a handler can throw: reading \<open>[0]\<close> of an undefined \<open>parts\<close>, or what the
  audio decoder throws.\<close>

datatype error = TypeError | DecodeError

text \<open>The readings of the clocks a message handler takes: \<open>Date.now()\<close> where the user
  message id is allocated, \<open>Date.now()\<close> where the model message id is allocated, and
  \<open>outputAudioContextRef.current.currentTime\<close>.\<close>

record Clock =
  dateNowUser :: nat
  dateNowModel :: nat
  currentTime :: real

subsection \<open>The remote session\<close>

text \<open>
  \<open>ai.live.connect\<close> returns a promise of a session. A promise is pending, fulfilled or
  rejected; \<open>then\<close> on a pending promise queues the callback, which runs when the promise
  is fulfilled; on a fulfilled promise the callback runs; on a rejected one it never runs.
  The two callbacks the component registers are sending one blob and closing the session.
  \<open>sentInputs\<close> logs the calls of \<open>session.sendRealtimeInput\<close>, \<open>closeCalls\<close> counts
  those of \<open>session.close\<close>.
\<close>

record Blob =
  data :: string
  mimeType :: string

datatype reaction = SendRealtimeInput Blob | CloseSession

datatype settled = Pending | Fulfilled | Rejected

record SessionPromise =
  settled :: settled
  reactions :: "reaction list"
  sentInputs :: "Blob list"
  closeCalls :: nat

text \<open>Teardown calls on the devices: \<open>track.stop()\<close> on the tracks of a stream,
  \<open>disconnect()\<close> on the script processor, \<open>close()\<close> on an audio context.\<close>

datatype release = StopTracks nat | DisconnectProcessor nat | CloseContext nat

subsection \<open>The component's state\<close>

text \<open>
  The \<open>useState\<close> variables and the \<open>useRef\<close> cells of \<open>App\<close>, followed by the world the
  component acts on: the \<open>interviewTranscripts\<close> item of local storage, the store of
  session promises (\<open>liveSessionRef\<close> holds an index into it), the log of
  \<open>source.start(t)\<close> calls with the duration of the buffer started (buffer source node
  \<open>n\<close> is entry \<open>n\<close> of the log, so \<open>outputAudioSourcesRef\<close> is a list of indices in insertion
  order), the log of \<open>source.stop()\<close> calls, the log of device teardown calls, and the
  number of device objects created so far.
\<close>

record App =
  isRecording :: bool
  isLoading :: bool
  messages :: "ChatMessage list"
  statusMessage :: string
  savedTranscripts :: "SavedTranscriptSession list"
  showPastTranscripts :: bool
  selectedPastTranscript :: "SavedTranscriptSession option"
  liveSessionRef :: "nat option"
  streamRef :: "nat option"
  inputAudioContextRef :: "nat option"
  outputAudioContextRef :: "nat option"
  scriptProcessorRef :: "nat option"
  outputAudioSourcesRef :: "nat list"
  nextStartTimeRef :: real
  currentInputTranscriptionRef :: string
  currentOutputTranscriptionRef :: string
  lastUserMessageIdRef :: string
  lastModelMessageIdRef :: string
  localStorage :: "SavedTranscriptSession list option"
  promises :: "SessionPromise list"
  started :: "(real \<times> real) list"
  stopCalls :: "nat list"
  released :: "release list"
  allocated :: nat

definition initialApp :: App where
  "initialApp =
     \<lparr>isRecording = False, isLoading = False, messages = [],
      statusMessage = ''Press the mic to start the interview.'',
      savedTranscripts = [], showPastTranscripts = False, selectedPastTranscript = None,
      liveSessionRef = None, streamRef = None, inputAudioContextRef = None,
      outputAudioContextRef = None, scriptProcessorRef = None,
      outputAudioSourcesRef = [], nextStartTimeRef = 0,
      currentInputTranscriptionRef = '''', currentOutputTranscriptionRef = '''',
      lastUserMessageIdRef = '''', lastModelMessageIdRef = '''',
      localStorage = None, promises = [], started = [], stopCalls = [], released = [],
      allocated = 0\<rparr>"

section \<open>The operations\<close>

text \<open>
  A state variable read inside a callback (\<open>isRecording\<close>, \<open>showPastTranscripts\<close>,
  \<open>messages\<close>) is the value the callback's closure captured at the render that created
  it, not the cell's current value; such a variable is a parameter of the operation here.
  A state setter called with an updater function is applied to the latest value, so the
  setters act on the state record directly. Logging to the console is not modelled.
\<close>

subsection \<open>Helpers of the language\<close>

text \<open>The decimal digits of a template literal \<open>${Date.now()}\<close>.\<close>

fun decimal :: "nat \<Rightarrow> string" where
  "decimal n =
     (if n < 10 then [''0123456789'' ! n]
      else decimal (n div 10) @ [''0123456789'' ! (n mod 10)])"

declare decimal.simps [simp del]

text \<open>\<open>Array.prototype.findIndex\<close>, with \<open>None\<close> for \<open>-1\<close>.\<close>

fun findIndex :: "('a \<Rightarrow> bool) \<Rightarrow> 'a list \<Rightarrow> nat option" where
  "findIndex P [] = None"
| "findIndex P (x # xs) = (if P x then Some 0 else map_option Suc (findIndex P xs))"

text \<open>\<open>Set.prototype.add\<close> on a set kept in insertion order.\<close>

definition setAdd :: "'a \<Rightarrow> 'a list \<Rightarrow> 'a list" where
  "setAdd x xs = (if x \<in> set xs then xs else xs @ [x])"

subsection \<open>The transcript\<close>

text \<open>The updater inside \<open>addMessage\<close>: a partial message with a non-empty id replaces the
  first message of the same id and speaker; any other message is appended.\<close>

definition addMessage :: "ChatMessage \<Rightarrow> ChatMessage list \<Rightarrow> ChatMessage list" where
  "addMessage message prevMessages =
     (if isPartial message \<and> id_msg message \<noteq> '''' then
        (case findIndex (\<lambda>msg. id_msg msg = id_msg message \<and> speaker msg = speaker message)
                prevMessages of
           Some existingMessageIndex \<Rightarrow> prevMessages[existingMessageIndex := message]
         | None \<Rightarrow> prevMessages @ [message])
      else prevMessages @ [message])"

definition clearPartialMessages :: "ChatMessage list \<Rightarrow> ChatMessage list" where
  "clearPartialMessages prevMessages = filter (\<lambda>msg. \<not> isPartial msg) prevMessages"

text \<open>\<open>setMessages\<close> with an updater.\<close>

definition setMessages :: "(ChatMessage list \<Rightarrow> ChatMessage list) \<Rightarrow> App \<Rightarrow> App" where
  "setMessages f s = s\<lparr>messages := f (messages s)\<rparr>"

subsection \<open>handleMessage\<close>

text \<open>The block ``Handle input transcription''.\<close>

definition handleInputTranscription :: "nat \<Rightarrow> LiveServerMessage \<Rightarrow> App \<Rightarrow> App" where
  "handleInputTranscription dateNow message s =
     (case message of None \<Rightarrow> s | Some content \<Rightarrow>
      (case inputTranscription content of None \<Rightarrow> s | Some text \<Rightarrow>
         let s1 =
           (if text \<noteq> '''' then
              (if lastUserMessageIdRef s = '''' then
                 let s' = s\<lparr>lastUserMessageIdRef := ''user-'' @ decimal dateNow\<rparr>
                 in setMessages (addMessage \<lparr>id_msg = lastUserMessageIdRef s', speaker = USER,
                       text_msg = text, isPartial = True\<rparr>) s'
               else
                 setMessages (addMessage \<lparr>id_msg = lastUserMessageIdRef s, speaker = USER,
                       text_msg = text, isPartial = True\<rparr>) s)
            else s)
         in s1\<lparr>currentInputTranscriptionRef := text, statusMessage := ''Listening...''\<rparr>))"

text \<open>The block ``Handle model output transcription''.\<close>

definition handleOutputTranscription :: "nat \<Rightarrow> LiveServerMessage \<Rightarrow> App \<Rightarrow> App" where
  "handleOutputTranscription dateNow message s =
     (case message of None \<Rightarrow> s | Some content \<Rightarrow>
      (case outputTranscription content of None \<Rightarrow> s | Some text \<Rightarrow>
         let s1 =
           (if text \<noteq> '''' then
              (if lastModelMessageIdRef s = '''' then
                 let s' = s\<lparr>lastModelMessageIdRef := ''model-'' @ decimal dateNow\<rparr>
                 in setMessages (addMessage \<lparr>id_msg = lastModelMessageIdRef s', speaker = MODEL,
                       text_msg = text, isPartial = True\<rparr>) s'
               else
                 setMessages (addMessage \<lparr>id_msg = lastModelMessageIdRef s, speaker = MODEL,
                       text_msg = text, isPartial = True\<rparr>) s)
            else s)
         in s1\<lparr>currentOutputTranscriptionRef := text, statusMessage := ''Speaking...''\<rparr>))"

text \<open>\<open>message.serverContent?.modelTurn?.parts[0]?.inlineData?.data\<close>: optional chaining
  stops at an absent \<open>serverContent\<close> or \<open>modelTurn\<close>; \<open>parts\<close> is indexed without it, so
  an absent \<open>parts\<close> throws.\<close>

definition base64EncodedAudioString :: "LiveServerMessage \<Rightarrow> error + string option" where
  "base64EncodedAudioString message =
     (case message of None \<Rightarrow> Inr None | Some content \<Rightarrow>
      (case modelTurn content of None \<Rightarrow> Inr None | Some turn \<Rightarrow>
       (case turn of None \<Rightarrow> Inl TypeError | Some ps \<Rightarrow>
        (case ps of [] \<Rightarrow> Inr None | p # _ \<Rightarrow> Inr p))))"

text \<open>
  The block ``Process model audio output''. \<open>decodeAudioData\<close> stands for
  \<open>decodeAudioData(decode(...), ctx, 24000, 1)\<close> of \<open>utils/audioUtils\<close>, which is not among
  the sources: it gives the duration of the decoded buffer, or throws. The handler awaits
  it; the block is taken as one step, so nothing else runs between the reading of the
  clock and the start of the source. An exception leaves the state as it is at the throw.
\<close>

definition processAudio ::
  "(string \<Rightarrow> error + real) \<Rightarrow> real \<Rightarrow> LiveServerMessage \<Rightarrow> App \<Rightarrow> error option \<times> App" where
  "processAudio decodeAudioData now message s =
     (case base64EncodedAudioString message of
        Inl e \<Rightarrow> (Some e, s)
      | Inr None \<Rightarrow> (None, s)
      | Inr (Some encoded) \<Rightarrow>
          if encoded \<noteq> '''' \<and> outputAudioContextRef s \<noteq> None then
            let s1 = s\<lparr>nextStartTimeRef := max (nextStartTimeRef s) now\<rparr> in
            (case decodeAudioData encoded of
               Inl e \<Rightarrow> (Some e, s1)
             | Inr duration \<Rightarrow>
                 let source = length (started s1);
                     s2 = s1\<lparr>started := started s1 @ [(nextStartTimeRef s1, duration)]\<rparr>;
                     s3 = s2\<lparr>nextStartTimeRef := nextStartTimeRef s2 + duration\<rparr>;
                     s4 = s3\<lparr>outputAudioSourcesRef := setAdd source (outputAudioSourcesRef s3)\<rparr>
                 in (None, s4\<lparr>statusMessage := ''Speaking...''\<rparr>))
          else (None, s))"

text \<open>The listener of a source's \<open>ended\<close> event.\<close>

definition sourceEnded :: "bool \<Rightarrow> bool \<Rightarrow> nat \<Rightarrow> App \<Rightarrow> App" where
  "sourceEnded isRecording_c showPastTranscripts_c source s =
     (let s1 = s\<lparr>outputAudioSourcesRef := removeAll source (outputAudioSourcesRef s)\<rparr>
      in if outputAudioSourcesRef s1 = [] \<and> \<not> isRecording_c \<and> \<not> showPastTranscripts_c
         then s1\<lparr>statusMessage := ''Press the mic to continue.''\<rparr> else s1)"

text \<open>The block ``When a turn is complete, finalize messages''.\<close>

definition handleTurnComplete :: "bool \<Rightarrow> LiveServerMessage \<Rightarrow> App \<Rightarrow> App" where
  "handleTurnComplete isRecording_c message s =
     (case message of None \<Rightarrow> s | Some content \<Rightarrow>
      if turnComplete content then
        let s1 =
              (if currentInputTranscriptionRef s \<noteq> '''' then
                 (setMessages (addMessage \<lparr>id_msg = lastUserMessageIdRef s, speaker = USER,
                      text_msg = currentInputTranscriptionRef s, isPartial = False\<rparr>) s)
                 \<lparr>currentInputTranscriptionRef := '''', lastUserMessageIdRef := ''''\<rparr>
               else s);
            s2 =
              (if currentOutputTranscriptionRef s1 \<noteq> '''' then
                 (setMessages (addMessage \<lparr>id_msg = lastModelMessageIdRef s1, speaker = MODEL,
                      text_msg = currentOutputTranscriptionRef s1, isPartial = False\<rparr>) s1)
                 \<lparr>currentOutputTranscriptionRef := '''', lastModelMessageIdRef := ''''\<rparr>
               else s1)
        in if \<not> isRecording_c \<and> outputAudioSourcesRef s2 = []
           then s2\<lparr>statusMessage := ''Press the mic to continue.''\<rparr>
           else if isRecording_c then s2\<lparr>statusMessage := ''Listening...''\<rparr>
           else s2
      else s)"

text \<open>The block of the \<open>interrupted\<close> flag: every source of the set is stopped and deleted,
  the cursor is reset and the partial messages are filtered out.\<close>

definition handleInterrupted :: "LiveServerMessage \<Rightarrow> App \<Rightarrow> App" where
  "handleInterrupted message s =
     (case message of None \<Rightarrow> s | Some content \<Rightarrow>
      if interrupted content then
        let s1 = s\<lparr>stopCalls := stopCalls s @ outputAudioSourcesRef s,
                   outputAudioSourcesRef := []\<rparr>;
            s2 = s1\<lparr>nextStartTimeRef := 0\<rparr>;
            s3 = setMessages clearPartialMessages s2
        in s3\<lparr>statusMessage := ''Conversation interrupted. Please speak again.''\<rparr>
      else s)"

text \<open>\<open>handleMessage\<close>: the blocks in the order of the source. An exception of the audio
  block ends the handler; the blocks after it do not run.\<close>

definition handleMessage ::
  "bool \<Rightarrow> (string \<Rightarrow> error + real) \<Rightarrow> Clock \<Rightarrow> LiveServerMessage \<Rightarrow> App
     \<Rightarrow> error option \<times> App" where
  "handleMessage isRecording_c decodeAudioData clock message s =
     (let s1 = handleInputTranscription (dateNowUser clock) message s;
          s2 = handleOutputTranscription (dateNowModel clock) message s1
      in case processAudio decodeAudioData (currentTime clock) message s2 of
           (Some e, s3) \<Rightarrow> (Some e, s3)
         | (None, s3) \<Rightarrow>
             (None, handleInterrupted message (handleTurnComplete isRecording_c message s3)))"

subsection \<open>Promises\<close>

definition runReaction :: "reaction \<Rightarrow> SessionPromise \<Rightarrow> SessionPromise" where
  "runReaction r p =
     (case r of
        SendRealtimeInput blob \<Rightarrow> p\<lparr>sentInputs := sentInputs p @ [blob]\<rparr>
      | CloseSession \<Rightarrow> p\<lparr>closeCalls := Suc (closeCalls p)\<rparr>)"

text \<open>\<open>promise.then(callback)\<close>.\<close>

definition thenReact :: "reaction \<Rightarrow> SessionPromise \<Rightarrow> SessionPromise" where
  "thenReact r p =
     (case settled p of
        Pending \<Rightarrow> p\<lparr>reactions := reactions p @ [r]\<rparr>
      | Fulfilled \<Rightarrow> runReaction r p
      | Rejected \<Rightarrow> p)"

definition onPromise :: "nat \<Rightarrow> (SessionPromise \<Rightarrow> SessionPromise) \<Rightarrow> App \<Rightarrow> App" where
  "onPromise i f s =
     (if i < length (promises s) then s\<lparr>promises := (promises s)[i := f (promises s ! i)]\<rparr>
      else s)"

text \<open>The connection is established: the promise is fulfilled and its queued callbacks
  run in the order of registration.\<close>

definition fulfil :: "SessionPromise \<Rightarrow> SessionPromise" where
  "fulfil p =
     (case settled p of
        Pending \<Rightarrow> fold runReaction (reactions p) (p\<lparr>settled := Fulfilled, reactions := []\<rparr>)
      | _ \<Rightarrow> p)"

definition reject :: "SessionPromise \<Rightarrow> SessionPromise" where
  "reject p =
     (case settled p of Pending \<Rightarrow> p\<lparr>settled := Rejected, reactions := []\<rparr> | _ \<Rightarrow> p)"

subsection \<open>The capture callback and the session callbacks\<close>

text \<open>\<open>onaudioprocess\<close>. \<open>createBlob\<close> of \<open>utils/audioUtils\<close> is not among the sources and is
  a parameter.\<close>

definition onaudioprocess :: "(real list \<Rightarrow> Blob) \<Rightarrow> real list \<Rightarrow> App \<Rightarrow> App" where
  "onaudioprocess createBlob inputData s =
     (let pcmBlob = createBlob inputData in
      case liveSessionRef s of
        None \<Rightarrow> s
      | Some p \<Rightarrow> onPromise p (thenReact (SendRealtimeInput pcmBlob)) s)"

text \<open>The promise of session \<open>p\<close> is fulfilled, or rejected.\<close>

definition resolveSession :: "nat \<Rightarrow> App \<Rightarrow> App" where
  "resolveSession p s = onPromise p fulfil s"

definition rejectSession :: "nat \<Rightarrow> App \<Rightarrow> App" where
  "rejectSession p s = onPromise p reject s"

text \<open>The capture callback fired once per frame, in order.\<close>

fun captureAll :: "(real list \<Rightarrow> Blob) \<Rightarrow> real list list \<Rightarrow> App \<Rightarrow> App" where
  "captureAll createBlob [] s = s"
| "captureAll createBlob (inputData # rest) s =
     captureAll createBlob rest (onaudioprocess createBlob inputData s)"

definition onopen :: "App \<Rightarrow> App" where
  "onopen s = s\<lparr>isRecording := True, isLoading := False,
                statusMessage := ''Interview started. Waiting for AI to speak...''\<rparr>"

subsection \<open>Stopping\<close>

definition saveCurrentTranscript :: "ChatMessage list \<Rightarrow> nat \<Rightarrow> nat \<Rightarrow> App \<Rightarrow> App" where
  "saveCurrentTranscript messages_c idNow stampNow s =
     (if length messages_c > 0 then
        let newTranscript = \<lparr>id_session = ''transcript-'' @ decimal idNow, timestamp = stampNow,
              messages_session = filter (\<lambda>msg. \<not> isPartial msg) messages_c\<rparr>;
            updated = savedTranscripts s @ [newTranscript]
        in s\<lparr>savedTranscripts := updated, localStorage := Some updated,
              statusMessage := ''Interview ended and transcript saved!''\<rparr>
      else s\<lparr>statusMessage := ''Interview ended.''\<rparr>)"

text \<open>The blocks of \<open>stopInterview\<close>, in the order of the source: ``Stop microphone
  stream'', ``Disconnect audio nodes'', ``Stop all playing model audio'' (a \<open>stop()\<close> that
  throws is caught), the closing of the output context, ``Close Live API session''.\<close>

definition stopMicrophoneStream :: "App \<Rightarrow> App" where
  "stopMicrophoneStream s =
     (case streamRef s of
        Some stream \<Rightarrow> s\<lparr>released := released s @ [StopTracks stream], streamRef := None\<rparr>
      | None \<Rightarrow> s)"

definition disconnectAudioNodes :: "App \<Rightarrow> App" where
  "disconnectAudioNodes s =
     (case (scriptProcessorRef s, inputAudioContextRef s) of
        (Some processor, Some ctx) \<Rightarrow>
          s\<lparr>released := released s @ [DisconnectProcessor processor, CloseContext ctx],
            inputAudioContextRef := None, scriptProcessorRef := None\<rparr>
      | _ \<Rightarrow> s)"

definition stopAllPlayingModelAudio :: "App \<Rightarrow> App" where
  "stopAllPlayingModelAudio s =
     s\<lparr>stopCalls := stopCalls s @ outputAudioSourcesRef s, outputAudioSourcesRef := [],
       nextStartTimeRef := 0\<rparr>"

definition closeOutputAudioContext :: "App \<Rightarrow> App" where
  "closeOutputAudioContext s =
     (case outputAudioContextRef s of
        Some ctx \<Rightarrow> s\<lparr>released := released s @ [CloseContext ctx], outputAudioContextRef := None\<rparr>
      | None \<Rightarrow> s)"

definition closeLiveSession :: "App \<Rightarrow> App" where
  "closeLiveSession s =
     (case liveSessionRef s of
        Some p \<Rightarrow> (onPromise p (thenReact CloseSession) s)\<lparr>liveSessionRef := None\<rparr>
      | None \<Rightarrow> s)"

definition stopInterview :: "ChatMessage list \<Rightarrow> nat \<Rightarrow> nat \<Rightarrow> App \<Rightarrow> App" where
  "stopInterview messages_c idNow stampNow s =
     (let s1 = s\<lparr>isRecording := False, isLoading := False\<rparr>;
          s2 = saveCurrentTranscript messages_c idNow stampNow s1;
          s3 = s2\<lparr>messages := []\<rparr>;
          s4 = stopMicrophoneStream s3;
          s5 = disconnectAudioNodes s4;
          s6 = stopAllPlayingModelAudio s5;
          s7 = closeOutputAudioContext s6;
          s8 = closeLiveSession s7;
          s9 = setMessages clearPartialMessages s8
      in s9\<lparr>currentInputTranscriptionRef := '''', currentOutputTranscriptionRef := '''',
            lastUserMessageIdRef := '''', lastModelMessageIdRef := ''''\<rparr>)"

text \<open>A stopped session: nothing is recording or loading, the transcript and the live set
  are empty, no stream, output context or session handle is held, the cursor is 0 and the
  reconciler's slots are empty. The guard of ``Disconnect audio nodes'' asks for both the
  processor and the input context, so a stop leaves one of the two in place when the other
  is missing.\<close>

definition stopped :: "App \<Rightarrow> bool" where
  "stopped s =
     (\<not> isRecording s \<and> \<not> isLoading s \<and> messages s = [] \<and> liveSessionRef s = None
      \<and> streamRef s = None \<and> (scriptProcessorRef s = None \<or> inputAudioContextRef s = None)
      \<and> outputAudioContextRef s = None
      \<and> outputAudioSourcesRef s = [] \<and> nextStartTimeRef s = 0
      \<and> currentInputTranscriptionRef s = '''' \<and> currentOutputTranscriptionRef s = ''''
      \<and> lastUserMessageIdRef s = '''' \<and> lastModelMessageIdRef s = '''')"

text \<open>\<open>handleClose\<close>: the close event of the remote stream.\<close>

definition handleClose :: "bool \<Rightarrow> ChatMessage list \<Rightarrow> nat \<Rightarrow> nat \<Rightarrow> App \<Rightarrow> App" where
  "handleClose isRecording_c messages_c idNow stampNow s =
     (if isRecording_c then
        stopInterview messages_c idNow stampNow
          (s\<lparr>statusMessage := ''Interview ended due to connection loss. Please restart.''\<rparr>)
      else s)"

subsection \<open>Starting\<close>

text \<open>
  \<open>startInterview\<close>, taken as one step. \<open>denied1\<close> and \<open>denied2\<close> say whether the first and
  the second \<open>getUserMedia\<close> reject, and with which message; the stream of the first call
  is not kept by the source. The \<open>catch\<close> block ends in \<open>stopInterview\<close>. The promise of
  the new session is pending when the function returns.
\<close>

definition failedToStart :: "ChatMessage list \<Rightarrow> nat \<Rightarrow> nat \<Rightarrow> string \<Rightarrow> App \<Rightarrow> App" where
  "failedToStart messages_c idNow stampNow reason s =
     stopInterview messages_c idNow stampNow
       (s\<lparr>isLoading := False, isRecording := False,
          statusMessage := ''Failed to start: '' @ reason\<rparr>)"

definition startInterview ::
  "ChatMessage list \<Rightarrow> nat \<Rightarrow> nat \<Rightarrow> string option \<Rightarrow> string option \<Rightarrow> App \<Rightarrow> App" where
  "startInterview messages_c idNow stampNow denied1 denied2 s =
     (let s1 = s\<lparr>isLoading := True, statusMessage := ''Connecting to AI interviewer...'',
                 messages := []\<rparr>;
          s2 = setMessages clearPartialMessages s1;
          s3 = s2\<lparr>lastUserMessageIdRef := '''', lastModelMessageIdRef := '''',
                   showPastTranscripts := False, selectedPastTranscript := None\<rparr>
      in case denied1 of
           Some reason \<Rightarrow> failedToStart messages_c idNow stampNow reason s3
         | None \<Rightarrow>
            (let s4 = s3\<lparr>allocated := Suc (allocated s3)\<rparr> in
             case denied2 of
               Some reason \<Rightarrow> failedToStart messages_c idNow stampNow reason s4
             | None \<Rightarrow>
                 let s5 = s4\<lparr>streamRef := Some (allocated s4), allocated := Suc (allocated s4)\<rparr>;
                     s6 = s5\<lparr>inputAudioContextRef := Some (allocated s5),
                              allocated := Suc (allocated s5)\<rparr>;
                     s7 = s6\<lparr>outputAudioContextRef := Some (allocated s6),
                              allocated := Suc (allocated s6)\<rparr>;
                     s8 = s7\<lparr>liveSessionRef := Some (length (promises s7)),
                              promises := promises s7 @
                                [\<lparr>settled = Pending, reactions = [], sentInputs = [],
                                  closeCalls = 0\<rparr>]\<rparr>
                 in s8\<lparr>scriptProcessorRef := Some (allocated s8),
                        allocated := Suc (allocated s8)\<rparr>))"

subsection \<open>Concrete sessions\<close>

text \<open>The state after a start request on a fresh component with the microphone granted:
  the session is connecting.\<close>

definition connectingApp :: App where
  "connectingApp = startInterview [] 0 0 None None initialApp"

text \<open>Clock readings with one \<open>Date.now()\<close> for both speakers, and a decoder that makes
  every character of the encoded chunk half a second of audio.\<close>

definition clockAt :: "nat \<Rightarrow> real \<Rightarrow> Clock" where
  "clockAt ms t = \<lparr>dateNowUser = ms, dateNowModel = ms, currentTime = t\<rparr>"

definition sampleCountBlob :: "real list \<Rightarrow> Blob" where
  "sampleCountBlob inputData =
     \<lparr>data = decimal (length inputData), mimeType = ''audio/pcm;rate=16000''\<rparr>"

definition halfSecondPerChar :: "string \<Rightarrow> error + real" where
  "halfSecondPerChar encoded = Inr (real (length encoded) / 2)"

subsection \<open>Inbound messages with one field\<close>

definition emptyContent :: ServerContent where
  "emptyContent = \<lparr>inputTranscription = None, outputTranscription = None, modelTurn = None,
     turnComplete = False, interrupted = False\<rparr>"

definition inputPartial :: "string \<Rightarrow> LiveServerMessage" where
  "inputPartial t = Some (emptyContent\<lparr>inputTranscription := Some t\<rparr>)"

definition outputPartial :: "string \<Rightarrow> LiveServerMessage" where
  "outputPartial t = Some (emptyContent\<lparr>outputTranscription := Some t\<rparr>)"

definition audioChunk :: "string \<Rightarrow> LiveServerMessage" where
  "audioChunk encoded = Some (emptyContent\<lparr>modelTurn := Some (Some [Some encoded])\<rparr>)"

definition turnCompleteSignal :: LiveServerMessage where
  "turnCompleteSignal = Some (emptyContent\<lparr>turnComplete := True\<rparr>)"

definition interruptedSignal :: LiveServerMessage where
  "interruptedSignal = Some (emptyContent\<lparr>interrupted := True\<rparr>)"

text \<open>The state reached by handling a message, whether or not the handler threw.\<close>

definition afterMessage ::
  "bool \<Rightarrow> (string \<Rightarrow> error + real) \<Rightarrow> Clock \<Rightarrow> LiveServerMessage \<Rightarrow> App \<Rightarrow> App" where
  "afterMessage isRecording_c decodeAudioData clock message s =
     snd (handleMessage isRecording_c decodeAudioData clock message s)"

text \<open>A session that has been opened and in which the model has spoken one finalized
  turn.\<close>

definition talkedApp :: App where
  "talkedApp =
     afterMessage False halfSecondPerChar (clockAt 21 0) turnCompleteSignal
       (afterMessage False halfSecondPerChar (clockAt 20 0) (outputPartial ''Hello'')
          (onopen (resolveSession 0 connectingApp)))"

text \<open>An opened session in which one chunk of one second is playing; a message with a
  model transcription, an audio chunk, the turn-complete flag and the interrupted flag; a
  message whose model turn has no \<open>parts\<close> and whose interrupted flag is set; the same
  message with an empty \<open>parts\<close>.\<close>

definition playingApp :: App where
  "playingApp = afterMessage False halfSecondPerChar (clockAt 10 0) (audioChunk ''ab'')
     (onopen (resolveSession 0 connectingApp))"

definition fullContent :: ServerContent where
  "fullContent = \<lparr>inputTranscription = None, outputTranscription = Some ''Hi'',
     modelTurn = Some (Some [Some ''ab'']), turnComplete = True, interrupted = True\<rparr>"

definition brokenTurnInterrupted :: LiveServerMessage where
  "brokenTurnInterrupted = Some (emptyContent\<lparr>modelTurn := Some None, interrupted := True\<rparr>)"

definition emptyTurnInterrupted :: LiveServerMessage where
  "emptyTurnInterrupted = Some (emptyContent\<lparr>modelTurn := Some (Some []), interrupted := True\<rparr>)"

subsection \<open>The reconciler's invariant and runs of partial updates\<close>

text \<open>No partial message of the transcript has a message of the same id and speaker before
  it: \<open>addMessage\<close> replaces the first message of that id and speaker, so a partial message
  behind another message of its key could never be updated.\<close>

fun partialsLead :: "ChatMessage list \<Rightarrow> bool" where
  "partialsLead [] = True"
| "partialsLead (m # ms) =
     (list_all (\<lambda>m'. \<not> (isPartial m' \<and> id_msg m' = id_msg m \<and> speaker m' = speaker m)) ms
      \<and> partialsLead ms)"

text \<open>Messages that carry one transcription text each, of the user or of the model,
  handled one after the other.\<close>

fun userPartials ::
  "bool \<Rightarrow> (string \<Rightarrow> error + real) \<Rightarrow> (Clock \<times> string) list \<Rightarrow> App \<Rightarrow> App" where
  "userPartials r d [] s = s"
| "userPartials r d ((clock, t) # rest) s =
     userPartials r d rest (afterMessage r d clock (inputPartial t) s)"

fun modelPartials ::
  "bool \<Rightarrow> (string \<Rightarrow> error + real) \<Rightarrow> (Clock \<times> string) list \<Rightarrow> App \<Rightarrow> App" where
  "modelPartials r d [] s = s"
| "modelPartials r d ((clock, t) # rest) s =
     modelPartials r d rest (afterMessage r d clock (outputPartial t) s)"

text \<open>An opened session in which the model has said \<open>Hello\<close>, then \<open>Hello there\<close>, and the
  turn has been completed; a message in which a model transcription, the turn-complete
  flag and the interrupted flag come together.\<close>

definition helloThereApp :: App where
  "helloThereApp =
     afterMessage False halfSecondPerChar (clockAt 22 0) turnCompleteSignal
       (afterMessage False halfSecondPerChar (clockAt 21 0) (outputPartial ''Hello there'')
          (afterMessage False halfSecondPerChar (clockAt 20 0) (outputPartial ''Hello'')
             (onopen (resolveSession 0 connectingApp))))"

text \<open>An opened session in which the user has said \<open>hi\<close> and the turn has been
  completed.\<close>

definition hiApp :: App where
  "hiApp =
     afterMessage False halfSecondPerChar (clockAt 8 0) turnCompleteSignal
       (afterMessage False halfSecondPerChar (clockAt 7 0) (inputPartial ''hi'')
          (onopen (resolveSession 0 connectingApp)))"

definition collidingContent :: ServerContent where
  "collidingContent = \<lparr>inputTranscription = None, outputTranscription = Some ''a'',
     modelTurn = None, turnComplete = True, interrupted = True\<rparr>"

subsection \<open>Runs of messages and the scheduler of the specification\<close>

text \<open>Messages handled one after the other, each with the clock readings of its handler.\<close>

fun handleAll ::
  "bool \<Rightarrow> (string \<Rightarrow> error + real) \<Rightarrow> (Clock \<times> LiveServerMessage) list \<Rightarrow> App \<Rightarrow> App" where
  "handleAll r d [] s = s"
| "handleAll r d ((clock, message) # rest) s =
     handleAll r d rest (afterMessage r d clock message s)"

text \<open>The chunk a message has enqueued when the output context is open: the clock reading
  and the duration of the decoded buffer; none when the message carries no audio data.\<close>

definition chunkOf ::
  "(string \<Rightarrow> error + real) \<Rightarrow> Clock \<times> LiveServerMessage \<Rightarrow> (real \<times> real) option" where
  "chunkOf d m =
     (case base64EncodedAudioString (snd m) of
        Inr (Some encoded) \<Rightarrow>
          if encoded \<noteq> '''' then
            (case d encoded of
               Inr duration \<Rightarrow> Some (currentTime (fst m), duration)
             | Inl _ \<Rightarrow> None)
          else None
      | _ \<Rightarrow> None)"

text \<open>A message that does not interrupt: its interrupted flag is not set, its audio part
  is read without an exception, and its audio data, if any, decode to a buffer of
  non-negative duration.\<close>

definition uninterrupted :: "(string \<Rightarrow> error + real) \<Rightarrow> LiveServerMessage \<Rightarrow> bool" where
  "uninterrupted d message =
     ((case message of None \<Rightarrow> True | Some content \<Rightarrow> \<not> interrupted content)
      \<and> (case base64EncodedAudioString message of
           Inl _ \<Rightarrow> False
         | Inr None \<Rightarrow> True
         | Inr (Some encoded) \<Rightarrow>
             encoded = ''''
             \<or> (case d encoded of Inr duration \<Rightarrow> 0 \<le> duration | Inl _ \<Rightarrow> False)))"

text \<open>The scheduler in the words of the specification: \<open>enqueue\<close> sets the cursor to the
  maximum of the cursor and the clock, starts the handle there and advances the cursor by
  the duration. The list holds the clock reading and the duration of each chunk; the
  result holds the start time and the duration of each handle.\<close>

fun backToBack :: "real \<Rightarrow> (real \<times> real) list \<Rightarrow> (real \<times> real) list" where
  "backToBack nextStartTime [] = []"
| "backToBack nextStartTime ((outputClockNow, duration) # rest) =
     (max nextStartTime outputClockNow, duration)
       # backToBack (max nextStartTime outputClockNow + duration) rest"

section \<open>Messages with one field\<close>

lemmas message_defs = inputPartial_def outputPartial_def audioChunk_def turnCompleteSignal_def
  interruptedSignal_def emptyContent_def

lemma handleMessage_inputPartial:
  "handleMessage r d c (inputPartial t) s =
     (None, handleInputTranscription (dateNowUser c) (inputPartial t) s)"
  by (simp add: handleMessage_def handleOutputTranscription_def processAudio_def
      base64EncodedAudioString_def handleTurnComplete_def handleInterrupted_def message_defs)

lemma handleMessage_outputPartial:
  "handleMessage r d c (outputPartial t) s =
     (None, handleOutputTranscription (dateNowModel c) (outputPartial t) s)"
  by (simp add: handleMessage_def handleInputTranscription_def processAudio_def
      base64EncodedAudioString_def handleTurnComplete_def handleInterrupted_def message_defs)

lemma handleMessage_turnCompleteSignal:
  "handleMessage r d c turnCompleteSignal s = (None, handleTurnComplete r turnCompleteSignal s)"
  by (simp add: handleMessage_def handleInputTranscription_def handleOutputTranscription_def
      processAudio_def base64EncodedAudioString_def handleInterrupted_def message_defs)

lemma handleMessage_interruptedSignal:
  "handleMessage r d c interruptedSignal s = (None, handleInterrupted interruptedSignal s)"
  by (simp add: handleMessage_def handleInputTranscription_def handleOutputTranscription_def
      processAudio_def base64EncodedAudioString_def handleTurnComplete_def message_defs)

lemma handleInputTranscription_inputPartial:
  "handleInputTranscription n (inputPartial t) s =
     (if t \<noteq> '''' then
        s\<lparr>lastUserMessageIdRef :=
             (if lastUserMessageIdRef s = '''' then ''user-'' @ decimal n else lastUserMessageIdRef s),
          messages := addMessage
             \<lparr>id_msg = (if lastUserMessageIdRef s = '''' then ''user-'' @ decimal n
                         else lastUserMessageIdRef s),
              speaker = USER, text_msg = t, isPartial = True\<rparr> (messages s),
          currentInputTranscriptionRef := t, statusMessage := ''Listening...''\<rparr>
      else s\<lparr>currentInputTranscriptionRef := '''', statusMessage := ''Listening...''\<rparr>)"
  by (cases "lastUserMessageIdRef s = ''''")
     (simp_all add: handleInputTranscription_def message_defs setMessages_def Let_def)

lemma handleOutputTranscription_outputPartial:
  "handleOutputTranscription n (outputPartial t) s =
     (if t \<noteq> '''' then
        s\<lparr>lastModelMessageIdRef :=
             (if lastModelMessageIdRef s = '''' then ''model-'' @ decimal n
              else lastModelMessageIdRef s),
          messages := addMessage
             \<lparr>id_msg = (if lastModelMessageIdRef s = '''' then ''model-'' @ decimal n
                         else lastModelMessageIdRef s),
              speaker = MODEL, text_msg = t, isPartial = True\<rparr> (messages s),
          currentOutputTranscriptionRef := t, statusMessage := ''Speaking...''\<rparr>
      else s\<lparr>currentOutputTranscriptionRef := '''', statusMessage := ''Speaking...''\<rparr>)"
  by (cases "lastModelMessageIdRef s = ''''")
     (simp_all add: handleOutputTranscription_def message_defs setMessages_def Let_def)

lemma handleTurnComplete_messages:
  "messages (handleTurnComplete r turnCompleteSignal s) = messages s
     @ (if currentInputTranscriptionRef s \<noteq> '''' then
          [\<lparr>id_msg = lastUserMessageIdRef s, speaker = USER,
            text_msg = currentInputTranscriptionRef s, isPartial = False\<rparr>] else [])
     @ (if currentOutputTranscriptionRef s \<noteq> '''' then
          [\<lparr>id_msg = lastModelMessageIdRef s, speaker = MODEL,
            text_msg = currentOutputTranscriptionRef s, isPartial = False\<rparr>] else [])"
  by (cases "currentInputTranscriptionRef s = ''''"; cases "currentOutputTranscriptionRef s = ''''")
     (simp_all add: handleTurnComplete_def message_defs setMessages_def addMessage_def Let_def)

lemma handleTurnComplete_slots:
  "currentInputTranscriptionRef (handleTurnComplete r turnCompleteSignal s) = ''''"
  "currentOutputTranscriptionRef (handleTurnComplete r turnCompleteSignal s) = ''''"
  "lastUserMessageIdRef (handleTurnComplete r turnCompleteSignal s) =
     (if currentInputTranscriptionRef s \<noteq> '''' then '''' else lastUserMessageIdRef s)"
  "lastModelMessageIdRef (handleTurnComplete r turnCompleteSignal s) =
     (if currentOutputTranscriptionRef s \<noteq> '''' then '''' else lastModelMessageIdRef s)"
  by (cases "currentInputTranscriptionRef s = ''''"; cases "currentOutputTranscriptionRef s = ''''";
      simp add: handleTurnComplete_def message_defs setMessages_def Let_def)+

section \<open>Turn completion\<close>

text \<open>
  C3. Handling a turn-complete signal appends, for each speaker whose pending text is not
  empty, one finalized message (\<open>isPartial = False\<close>) with that text and the speaker's
  message id, the user's before the model's, and nothing else; afterwards both pending
  texts are empty and the id of each speaker that was finalized is cleared. A speaker with
  an empty pending text gets no message. A second turn-complete signal handled right after
  leaves the transcript as it is.
\<close>

theorem turnComplete_finalizes_pending:
  "let s' = afterMessage r d c turnCompleteSignal s in
     fst (handleMessage r d c turnCompleteSignal s) = None
   \<and> messages s' = messages s
        @ (if currentInputTranscriptionRef s \<noteq> '''' then
             [\<lparr>id_msg = lastUserMessageIdRef s, speaker = USER,
               text_msg = currentInputTranscriptionRef s, isPartial = False\<rparr>] else [])
        @ (if currentOutputTranscriptionRef s \<noteq> '''' then
             [\<lparr>id_msg = lastModelMessageIdRef s, speaker = MODEL,
               text_msg = currentOutputTranscriptionRef s, isPartial = False\<rparr>] else [])
   \<and> currentInputTranscriptionRef s' = '''' \<and> currentOutputTranscriptionRef s' = ''''
   \<and> lastUserMessageIdRef s' =
        (if currentInputTranscriptionRef s \<noteq> '''' then '''' else lastUserMessageIdRef s)
   \<and> lastModelMessageIdRef s' =
        (if currentOutputTranscriptionRef s \<noteq> '''' then '''' else lastModelMessageIdRef s)
   \<and> messages (afterMessage r' d' c' turnCompleteSignal s') = messages s'"
  unfolding Let_def afterMessage_def handleMessage_turnCompleteSignal
  by (simp only: fst_conv snd_conv handleTurnComplete_messages handleTurnComplete_slots) simp

section \<open>Interruption\<close>

text \<open>
  C4. Handling an interrupted signal, from any state: \<open>stop()\<close> is called on every source
  of the live set, the live set is empty afterwards, \<open>nextStartTimeRef\<close> is 0, and the
  transcript keeps exactly its finalized messages: every partial message is removed and no
  message is added. Nothing else changes but the status text; in particular the pending
  texts and message ids of the reconciler are left as they are. (Every source of the set
  was started before it was added, so \<open>stop()\<close> does not throw.)
\<close>

theorem interrupted_flushes_playback_and_partials:
  "handleMessage isRecording_c decodeAudioData clock interruptedSignal s =
     (None, s\<lparr>stopCalls := stopCalls s @ outputAudioSourcesRef s, outputAudioSourcesRef := [],
       nextStartTimeRef := 0, messages := filter (\<lambda>m. \<not> isPartial m) (messages s),
       statusMessage := ''Conversation interrupted. Please speak again.''\<rparr>)
   \<and> outputAudioSourcesRef (afterMessage isRecording_c decodeAudioData clock interruptedSignal s) = []
   \<and> nextStartTimeRef (afterMessage isRecording_c decodeAudioData clock interruptedSignal s) = 0
   \<and> set (outputAudioSourcesRef s)
        \<subseteq> set (stopCalls (afterMessage isRecording_c decodeAudioData clock interruptedSignal s))
   \<and> filter isPartial
        (messages (afterMessage isRecording_c decodeAudioData clock interruptedSignal s)) = []
   \<and> filter (\<lambda>m. \<not> isPartial m)
        (messages (afterMessage isRecording_c decodeAudioData clock interruptedSignal s))
      = filter (\<lambda>m. \<not> isPartial m) (messages s)"
  unfolding afterMessage_def handleMessage_interruptedSignal
  by (simp add: handleInterrupted_def setMessages_def clearPartialMessages_def message_defs)

section \<open>A transcription field with an empty text\<close>

text \<open>
  C9. A transcription field whose text is empty sets the speaker's pending text to the
  empty string and leaves the transcript and the speaker's message id as they are: no
  partial message is added or updated. A turn-complete signal handled next adds no message
  of that speaker (it adds the other speaker's finalized message when that one's pending
  text is not empty), so a partial message of the speaker that was in the transcript
  stays there with its old text. Stated for the user's field, then for the model's.
\<close>

theorem empty_transcription_resets_pending:
  "(let s1 = afterMessage r d c (inputPartial '''') s;
        s2 = afterMessage r' d' c' turnCompleteSignal s1 in
      messages s1 = messages s \<and> currentInputTranscriptionRef s1 = ''''
    \<and> lastUserMessageIdRef s1 = lastUserMessageIdRef s
    \<and> messages s2 = messages s
         @ (if currentOutputTranscriptionRef s \<noteq> '''' then
              [\<lparr>id_msg = lastModelMessageIdRef s, speaker = MODEL,
                text_msg = currentOutputTranscriptionRef s, isPartial = False\<rparr>] else [])
    \<and> filter (\<lambda>m. speaker m = USER) (messages s2) = filter (\<lambda>m. speaker m = USER) (messages s))
 \<and> (let s1 = afterMessage r d c (outputPartial '''') s;
        s2 = afterMessage r' d' c' turnCompleteSignal s1 in
      messages s1 = messages s \<and> currentOutputTranscriptionRef s1 = ''''
    \<and> lastModelMessageIdRef s1 = lastModelMessageIdRef s
    \<and> messages s2 = messages s
         @ (if currentInputTranscriptionRef s \<noteq> '''' then
              [\<lparr>id_msg = lastUserMessageIdRef s, speaker = USER,
                text_msg = currentInputTranscriptionRef s, isPartial = False\<rparr>] else [])
    \<and> filter (\<lambda>m. speaker m = MODEL) (messages s2) = filter (\<lambda>m. speaker m = MODEL) (messages s))"
  unfolding Let_def afterMessage_def handleMessage_turnCompleteSignal handleMessage_inputPartial
    handleMessage_outputPartial
  by (simp only: fst_conv snd_conv handleTurnComplete_messages handleTurnComplete_slots
        handleInputTranscription_inputPartial handleOutputTranscription_outputPartial)
     simp

text \<open>The stale partial message, on a run: the user's partial text \<open>hi\<close> arrives at
  millisecond 7, then an empty text, then the turn-complete signal; the transcript still
  holds the partial message and no finalized one.\<close>

theorem empty_transcription_resets_pending_witness:
  "messages (afterMessage False halfSecondPerChar (clockAt 9 0) turnCompleteSignal
      (afterMessage False halfSecondPerChar (clockAt 8 0) (inputPartial '''')
         (afterMessage False halfSecondPerChar (clockAt 7 0) (inputPartial ''hi'') connectingApp)))
   = [\<lparr>id_msg = ''user-7'', speaker = USER, text_msg = ''hi'', isPartial = True\<rparr>]"
proof -
  let ?s = "afterMessage False halfSecondPerChar (clockAt 7 0) (inputPartial ''hi'') connectingApp"
  have m: "messages ?s = [\<lparr>id_msg = ''user-7'', speaker = USER, text_msg = ''hi'', isPartial = True\<rparr>]"
    by (simp add: afterMessage_def handleMessage_inputPartial handleInputTranscription_inputPartial
        connectingApp_def startInterview_def initialApp_def clockAt_def setMessages_def
        clearPartialMessages_def addMessage_def decimal.simps)
  have o: "currentOutputTranscriptionRef ?s = ''''"
    by (simp add: afterMessage_def handleMessage_inputPartial handleInputTranscription_inputPartial
        connectingApp_def startInterview_def initialApp_def clockAt_def setMessages_def
        clearPartialMessages_def)
  have "messages (afterMessage False halfSecondPerChar (clockAt 9 0) turnCompleteSignal
          (afterMessage False halfSecondPerChar (clockAt 8 0) (inputPartial '''') ?s))
        = messages ?s
          @ (if currentOutputTranscriptionRef ?s \<noteq> '''' then
               [\<lparr>id_msg = lastModelMessageIdRef ?s, speaker = MODEL,
                 text_msg = currentOutputTranscriptionRef ?s, isPartial = False\<rparr>] else [])"
    using empty_transcription_resets_pending
      [of False halfSecondPerChar "clockAt 8 0" ?s False halfSecondPerChar "clockAt 9 0"]
    by (simp only: Let_def)
  then show ?thesis by (simp only: m o) simp
qed

section \<open>Close events outside a recording\<close>

text \<open>
  C10. A close event of the remote stream whose handler holds \<open>isRecording = false\<close>
  (connection setup, or after a stop) changes nothing: the microphone stream, the audio
  contexts, the script processor, the live sources, the session handle, the transcript and
  every log of calls are as before. Read from right to left: a close event that changes
  anything was handled with \<open>isRecording = true\<close>.
\<close>

theorem handleClose_not_recording:
  "\<not> isRecording_c \<Longrightarrow> handleClose isRecording_c messages_c idNow stampNow s = s"
  by (simp add: handleClose_def)

theorem handleClose_not_recording_witness:
  "\<not> False \<and> handleClose False [] 5 5 connectingApp = connectingApp"
  by (rule conjI [OF not_False_eq_True [THEN iffD2, OF TrueI]
        handleClose_not_recording [of False "[]" 5 5 connectingApp, OF not_False_eq_True [THEN iffD2, OF TrueI]]])

section \<open>Capture frames while the session is connecting\<close>

lemma sentInputs_fold_sends:
  "sentInputs (fold runReaction (map (\<lambda>x. SendRealtimeInput (cb x)) frames) q)
     = sentInputs q @ map cb frames"
  by (induction frames arbitrary: q) (simp_all add: runReaction_def)

lemma onaudioprocess_pending:
  assumes "liveSessionRef s = Some p" "p < length (promises s)"
    "settled (promises s ! p) = Pending"
  shows "onaudioprocess cb x s =
     s\<lparr>promises := (promises s)[p := (promises s ! p)
           \<lparr>reactions := reactions (promises s ! p) @ [SendRealtimeInput (cb x)]\<rparr>]\<rparr>"
  using assms by (simp add: onaudioprocess_def onPromise_def thenReact_def)

lemma captureAll_pending:
  assumes "liveSessionRef s = Some p" "p < length (promises s)"
    "settled (promises s ! p) = Pending"
  shows "captureAll cb frames s =
     s\<lparr>promises := (promises s)[p := (promises s ! p)
           \<lparr>reactions := reactions (promises s ! p)
              @ map (\<lambda>x. SendRealtimeInput (cb x)) frames\<rparr>]\<rparr>"
  using assms
proof (induction frames arbitrary: s)
  case Nil
  then show ?case by simp
next
  case (Cons x frames)
  let ?s1 = "onaudioprocess cb x s"
  have e: "?s1 = s\<lparr>promises := (promises s)[p := (promises s ! p)
              \<lparr>reactions := reactions (promises s ! p) @ [SendRealtimeInput (cb x)]\<rparr>]\<rparr>"
    using Cons.prems by (rule onaudioprocess_pending)
  have "captureAll cb frames ?s1 =
      ?s1\<lparr>promises := (promises ?s1)[p := (promises ?s1 ! p)
            \<lparr>reactions := reactions (promises ?s1 ! p)
               @ map (\<lambda>x. SendRealtimeInput (cb x)) frames\<rparr>]\<rparr>"
    by (rule Cons.IH) (use Cons.prems in \<open>simp_all add: e\<close>)
  then show ?case using Cons.prems by (simp add: e)
qed

lemma connectingApp_session:
  "liveSessionRef connectingApp = Some 0"
  "promises connectingApp = [\<lparr>settled = Pending, reactions = [], sentInputs = [], closeCalls = 0\<rparr>]"
  by (simp_all add: connectingApp_def startInterview_def initialApp_def setMessages_def
      clearPartialMessages_def)

text \<open>
  C2, as the code has it. While the promise of the session is pending, a captured frame is
  not sent at once, and it is not dropped either: \<open>then\<close> queues the send on the promise.
  The frames captured while connecting are all sent, in capture order, when the promise
  is fulfilled, after whatever was queued before them.
\<close>

theorem frames_while_connecting_are_queued:
  assumes "liveSessionRef s = Some p" "p < length (promises s)"
    "settled (promises s ! p) = Pending"
  shows "let s' = captureAll createBlob frames s in
           liveSessionRef s' = Some p \<and> settled (promises s' ! p) = Pending
         \<and> sentInputs (promises s' ! p) = sentInputs (promises s ! p)
         \<and> reactions (promises s' ! p)
             = reactions (promises s ! p) @ map (\<lambda>x. SendRealtimeInput (createBlob x)) frames
         \<and> sentInputs (promises (resolveSession p s') ! p)
             = sentInputs (promises (resolveSession p s) ! p) @ map createBlob frames"
  using assms
  by (simp add: captureAll_pending [OF assms] Let_def resolveSession_def onPromise_def fulfil_def
      sentInputs_fold_sends)

theorem frames_while_connecting_are_queued_witness:
  "liveSessionRef connectingApp = Some 0 \<and> 0 < length (promises connectingApp)
   \<and> settled (promises connectingApp ! 0) = Pending
   \<and> sentInputs (promises (captureAll sampleCountBlob [[1/2], [1/4, 1/8]] connectingApp) ! 0) = []
   \<and> sentInputs (promises (resolveSession 0
        (captureAll sampleCountBlob [[1/2], [1/4, 1/8]] connectingApp)) ! 0)
      = [sampleCountBlob [1/2], sampleCountBlob [1/4, 1/8]]"
proof -
  have h1: "liveSessionRef connectingApp = Some 0"
    and h2: "0 < length (promises connectingApp)"
    and h3: "settled (promises connectingApp ! 0) = Pending"
    by (simp_all add: connectingApp_session)
  have before: "sentInputs (promises connectingApp ! 0) = []"
    "sentInputs (promises (resolveSession 0 connectingApp) ! 0) = []"
    by (simp_all add: connectingApp_session resolveSession_def onPromise_def fulfil_def)
  from frames_while_connecting_are_queued [OF h1 h2 h3, of sampleCountBlob "[[1/2], [1/4, 1/8]]"]
  have "sentInputs (promises (captureAll sampleCountBlob [[1/2], [1/4, 1/8]] connectingApp) ! 0)
          = sentInputs (promises connectingApp ! 0)"
    and "sentInputs (promises (resolveSession 0
            (captureAll sampleCountBlob [[1/2], [1/4, 1/8]] connectingApp)) ! 0)
          = sentInputs (promises (resolveSession 0 connectingApp) ! 0)
            @ map sampleCountBlob [[1/2], [1/4, 1/8]]"
    by (simp_all only: Let_def)
  then show ?thesis using h1 h2 h3 by (simp only: before) simp
qed

text \<open>The scenario of the specification: three frames are captured before the session is
  open, then the promise is fulfilled. The three frames have been sent.\<close>

theorem frames_before_open_are_sent:
  "sentInputs (promises (resolveSession 0
      (captureAll sampleCountBlob [[1/2], [1/2, 1/4], []] connectingApp)) ! 0)
   = [sampleCountBlob [1/2], sampleCountBlob [1/2, 1/4], sampleCountBlob []]"
  by (simp add: onaudioprocess_def connectingApp_session onPromise_def thenReact_def
      resolveSession_def fulfil_def runReaction_def)

section \<open>Stopping twice\<close>

lemma saveCurrentTranscript_fields [simp]:
  "isRecording (saveCurrentTranscript msgs i t s) = isRecording s"
  "isLoading (saveCurrentTranscript msgs i t s) = isLoading s"
  "savedTranscripts (saveCurrentTranscript msgs i t s) = savedTranscripts s @
     (if msgs \<noteq> [] then [\<lparr>id_session = ''transcript-'' @ decimal i, timestamp = t,
         messages_session = filter (\<lambda>msg. \<not> isPartial msg) msgs\<rparr>] else [])"
  by (simp_all add: saveCurrentTranscript_def Let_def)

lemma stopMicrophoneStream_fields [simp]:
  "isRecording (stopMicrophoneStream s) = isRecording s"
  "isLoading (stopMicrophoneStream s) = isLoading s"
  "messages (stopMicrophoneStream s) = messages s"
  "savedTranscripts (stopMicrophoneStream s) = savedTranscripts s"
  "liveSessionRef (stopMicrophoneStream s) = liveSessionRef s"
  "streamRef (stopMicrophoneStream s) = None"
  "inputAudioContextRef (stopMicrophoneStream s) = inputAudioContextRef s"
  "outputAudioContextRef (stopMicrophoneStream s) = outputAudioContextRef s"
  "scriptProcessorRef (stopMicrophoneStream s) = scriptProcessorRef s"
  "outputAudioSourcesRef (stopMicrophoneStream s) = outputAudioSourcesRef s"
  "nextStartTimeRef (stopMicrophoneStream s) = nextStartTimeRef s"
  "statusMessage (stopMicrophoneStream s) = statusMessage s"
  by (simp_all add: stopMicrophoneStream_def split: option.splits)

lemma disconnectAudioNodes_fields [simp]:
  "isRecording (disconnectAudioNodes s) = isRecording s"
  "isLoading (disconnectAudioNodes s) = isLoading s"
  "messages (disconnectAudioNodes s) = messages s"
  "savedTranscripts (disconnectAudioNodes s) = savedTranscripts s"
  "liveSessionRef (disconnectAudioNodes s) = liveSessionRef s"
  "streamRef (disconnectAudioNodes s) = streamRef s"
  "outputAudioContextRef (disconnectAudioNodes s) = outputAudioContextRef s"
  "outputAudioSourcesRef (disconnectAudioNodes s) = outputAudioSourcesRef s"
  "nextStartTimeRef (disconnectAudioNodes s) = nextStartTimeRef s"
  "statusMessage (disconnectAudioNodes s) = statusMessage s"
  by (simp_all add: disconnectAudioNodes_def split: option.splits)

lemma disconnectAudioNodes_guard:
  "scriptProcessorRef (disconnectAudioNodes s) = None
   \<or> inputAudioContextRef (disconnectAudioNodes s) = None"
  by (simp add: disconnectAudioNodes_def split: option.splits)

lemma closeOutputAudioContext_fields [simp]:
  "isRecording (closeOutputAudioContext s) = isRecording s"
  "isLoading (closeOutputAudioContext s) = isLoading s"
  "messages (closeOutputAudioContext s) = messages s"
  "savedTranscripts (closeOutputAudioContext s) = savedTranscripts s"
  "liveSessionRef (closeOutputAudioContext s) = liveSessionRef s"
  "streamRef (closeOutputAudioContext s) = streamRef s"
  "inputAudioContextRef (closeOutputAudioContext s) = inputAudioContextRef s"
  "outputAudioContextRef (closeOutputAudioContext s) = None"
  "scriptProcessorRef (closeOutputAudioContext s) = scriptProcessorRef s"
  "outputAudioSourcesRef (closeOutputAudioContext s) = outputAudioSourcesRef s"
  "nextStartTimeRef (closeOutputAudioContext s) = nextStartTimeRef s"
  "statusMessage (closeOutputAudioContext s) = statusMessage s"
  by (simp_all add: closeOutputAudioContext_def split: option.splits)

lemma closeLiveSession_fields [simp]:
  "isRecording (closeLiveSession s) = isRecording s"
  "isLoading (closeLiveSession s) = isLoading s"
  "messages (closeLiveSession s) = messages s"
  "savedTranscripts (closeLiveSession s) = savedTranscripts s"
  "liveSessionRef (closeLiveSession s) = None"
  "streamRef (closeLiveSession s) = streamRef s"
  "inputAudioContextRef (closeLiveSession s) = inputAudioContextRef s"
  "outputAudioContextRef (closeLiveSession s) = outputAudioContextRef s"
  "scriptProcessorRef (closeLiveSession s) = scriptProcessorRef s"
  "outputAudioSourcesRef (closeLiveSession s) = outputAudioSourcesRef s"
  "nextStartTimeRef (closeLiveSession s) = nextStartTimeRef s"
  "statusMessage (closeLiveSession s) = statusMessage s"
  by (simp_all add: closeLiveSession_def onPromise_def split: option.splits)

lemma stopInterview_stopped: "stopped (stopInterview msgs i t s)"
  unfolding stopInterview_def Let_def stopped_def
  using disconnectAudioNodes_guard [of "stopMicrophoneStream
      (saveCurrentTranscript msgs i t (s\<lparr>isRecording := False, isLoading := False\<rparr>)
         \<lparr>messages := []\<rparr>)"]
  by (simp add: setMessages_def clearPartialMessages_def stopAllPlayingModelAudio_def)

lemma stopInterview_savedTranscripts:
  "savedTranscripts (stopInterview msgs i t s) = savedTranscripts s @
     (if msgs \<noteq> [] then [\<lparr>id_session = ''transcript-'' @ decimal i, timestamp = t,
         messages_session = filter (\<lambda>msg. \<not> isPartial msg) msgs\<rparr>] else [])"
  unfolding stopInterview_def Let_def
  by (simp add: setMessages_def clearPartialMessages_def stopAllPlayingModelAudio_def)

lemma stopInterview_statusMessage:
  "statusMessage (stopInterview msgs i t s)
     = (if msgs \<noteq> [] then ''Interview ended and transcript saved!'' else ''Interview ended.'')"
  unfolding stopInterview_def Let_def
  by (simp add: setMessages_def clearPartialMessages_def stopAllPlayingModelAudio_def
      saveCurrentTranscript_def Let_def)

lemma stopInterview_when_stopped:
  assumes "stopped s"
  shows "stopInterview (messages s) i t s = s\<lparr>statusMessage := ''Interview ended.''\<rparr>"
proof -
  let ?u = "s\<lparr>statusMessage := ''Interview ended.''\<rparr>"
  have 1: "s\<lparr>isRecording := False, isLoading := False\<rparr> = s"
    using assms by (cases s) (simp add: stopped_def)
  have 2: "saveCurrentTranscript (messages s) i t s = ?u"
    using assms by (simp add: saveCurrentTranscript_def stopped_def)
  have 3: "?u\<lparr>messages := []\<rparr> = ?u"
    using assms by (cases s) (simp add: stopped_def)
  have 4: "stopMicrophoneStream ?u = ?u"
    using assms by (simp add: stopMicrophoneStream_def stopped_def)
  have 5: "disconnectAudioNodes ?u = ?u"
    using assms by (auto simp add: disconnectAudioNodes_def stopped_def split: option.splits)
  have 6: "stopAllPlayingModelAudio ?u = ?u"
    using assms by (cases s) (simp add: stopAllPlayingModelAudio_def stopped_def)
  have 7: "closeOutputAudioContext ?u = ?u"
    using assms by (simp add: closeOutputAudioContext_def stopped_def)
  have 8: "closeLiveSession ?u = ?u"
    using assms by (simp add: closeLiveSession_def stopped_def)
  have 9: "setMessages clearPartialMessages ?u = ?u"
    using assms by (cases s) (simp add: setMessages_def clearPartialMessages_def stopped_def)
  have 10: "?u\<lparr>currentInputTranscriptionRef := '''', currentOutputTranscriptionRef := '''',
            lastUserMessageIdRef := '''', lastModelMessageIdRef := ''''\<rparr> = ?u"
    using assms by (cases s) (simp add: stopped_def)
  show ?thesis
    unfolding stopInterview_def Let_def 1 2 3 4 5 6 7 8 9 10 ..
qed

text \<open>
  C7, as the code has it. \<open>stopInterview\<close> has no guard for a stopped session. Whatever the
  state, a stop leaves the session stopped and commits one archive entry when the
  transcript its closure holds is not empty, and none when it is empty. A stop on a
  stopped session, reading the (empty) transcript of that session, sets the status text to
  \<open>Interview ended.\<close> and changes nothing else: no archive entry is committed, no device
  or session call is made. So two stops in a row, the second reading the transcript as the
  first left it, commit at most one entry and never a duplicate.
\<close>

theorem stop_on_stopped_session:
  "stopped (stopInterview msgs i t s)
   \<and> savedTranscripts (stopInterview msgs i t s) = savedTranscripts s @
       (if msgs \<noteq> [] then [\<lparr>id_session = ''transcript-'' @ decimal i, timestamp = t,
           messages_session = filter (\<lambda>msg. \<not> isPartial msg) msgs\<rparr>] else [])
   \<and> (stopped s' \<longrightarrow>
        stopInterview (messages s') i' t' s' = s'\<lparr>statusMessage := ''Interview ended.''\<rparr>)
   \<and> (let s1 = stopInterview msgs i t s; s2 = stopInterview (messages s1) i' t' s1 in
        s2 = s1\<lparr>statusMessage := ''Interview ended.''\<rparr>
      \<and> savedTranscripts s2 = savedTranscripts s1 \<and> localStorage s2 = localStorage s1)"
proof (intro conjI impI)
  show "stopped (stopInterview msgs i t s)" by (rule stopInterview_stopped)
  show "savedTranscripts (stopInterview msgs i t s) = savedTranscripts s @
       (if msgs \<noteq> [] then [\<lparr>id_session = ''transcript-'' @ decimal i, timestamp = t,
           messages_session = filter (\<lambda>msg. \<not> isPartial msg) msgs\<rparr>] else [])"
    by (rule stopInterview_savedTranscripts)
  show "stopInterview (messages s') i' t' s' = s'\<lparr>statusMessage := ''Interview ended.''\<rparr>"
    if "stopped s'" using that by (rule stopInterview_when_stopped)
  show "let s1 = stopInterview msgs i t s; s2 = stopInterview (messages s1) i' t' s1 in
        s2 = s1\<lparr>statusMessage := ''Interview ended.''\<rparr>
      \<and> savedTranscripts s2 = savedTranscripts s1 \<and> localStorage s2 = localStorage s1"
    by (simp add: Let_def stopInterview_when_stopped [OF stopInterview_stopped])
qed

lemma talkedApp_messages:
  "messages talkedApp =
     [\<lparr>id_msg = ''model-20'', speaker = MODEL, text_msg = ''Hello'', isPartial = True\<rparr>,
      \<lparr>id_msg = ''model-20'', speaker = MODEL, text_msg = ''Hello'', isPartial = False\<rparr>]"
  unfolding talkedApp_def afterMessage_def handleMessage_turnCompleteSignal
    handleMessage_outputPartial snd_conv handleTurnComplete_messages
    handleOutputTranscription_outputPartial
  by (simp add: onopen_def resolveSession_def onPromise_def connectingApp_def startInterview_def
      initialApp_def setMessages_def clearPartialMessages_def addMessage_def clockAt_def
      decimal.simps)

lemma afterMessage_savedTranscripts:
  "savedTranscripts (afterMessage r d c m s) = savedTranscripts s"
proof -
  have 1: "savedTranscripts (handleInputTranscription n m s) = savedTranscripts s" for n s
    by (simp add: handleInputTranscription_def setMessages_def Let_def split: option.splits)
  have 2: "savedTranscripts (handleOutputTranscription n m s) = savedTranscripts s" for n s
    by (simp add: handleOutputTranscription_def setMessages_def Let_def split: option.splits)
  have 3: "savedTranscripts (snd (processAudio d now m s)) = savedTranscripts s" for now s
    by (simp add: processAudio_def Let_def split: sum.splits option.splits)
  have 4: "savedTranscripts (handleTurnComplete r m s) = savedTranscripts s" for s
    by (simp add: handleTurnComplete_def setMessages_def Let_def split: option.splits)
  have 5: "savedTranscripts (handleInterrupted m s) = savedTranscripts s" for s
    by (simp add: handleInterrupted_def setMessages_def Let_def split: option.splits)
  let ?s3 = "snd (processAudio d (currentTime c) m
      (handleOutputTranscription (dateNowModel c) m (handleInputTranscription (dateNowUser c) m s)))"
  have "afterMessage r d c m s = ?s3
        \<or> afterMessage r d c m s = handleInterrupted m (handleTurnComplete r m ?s3)"
    by (simp add: afterMessage_def handleMessage_def Let_def split: prod.splits option.splits)
  then show ?thesis by (auto simp add: 1 2 3 4 5)
qed

lemma talkedApp_savedTranscripts: "savedTranscripts talkedApp = []"
  by (simp add: talkedApp_def afterMessage_savedTranscripts onopen_def resolveSession_def
      onPromise_def connectingApp_def startInterview_def initialApp_def setMessages_def
      clearPartialMessages_def)

text \<open>On the session in which the model has spoken one finalized turn: the second stop
  changes the status text only, and the archive holds one entry, with the finalized
  message and without the partial one.\<close>

theorem stop_on_stopped_session_witness:
  "stopped (stopInterview (messages talkedApp) 30 31 talkedApp)
   \<and> stopInterview (messages (stopInterview (messages talkedApp) 30 31 talkedApp)) 40 41
        (stopInterview (messages talkedApp) 30 31 talkedApp)
      = (stopInterview (messages talkedApp) 30 31 talkedApp)\<lparr>statusMessage := ''Interview ended.''\<rparr>
   \<and> savedTranscripts
        (stopInterview (messages (stopInterview (messages talkedApp) 30 31 talkedApp)) 40 41
           (stopInterview (messages talkedApp) 30 31 talkedApp))
      = [\<lparr>id_session = ''transcript-30'', timestamp = 31,
          messages_session =
            [\<lparr>id_msg = ''model-20'', speaker = MODEL, text_msg = ''Hello'', isPartial = False\<rparr>]\<rparr>]"
proof -
  let ?s1 = "stopInterview (messages talkedApp) 30 31 talkedApp"
  let ?s2 = "stopInterview (messages ?s1) 40 41 ?s1"
  have a: "stopped ?s1" by (rule stopInterview_stopped)
  note th = stop_on_stopped_session [of "messages talkedApp" 30 31 talkedApp ?s1 40 41]
  from th have "stopped ?s1 \<longrightarrow> ?s2 = ?s1\<lparr>statusMessage := ''Interview ended.''\<rparr>"
    by (elim conjE)
  with a have b: "?s2 = ?s1\<lparr>statusMessage := ''Interview ended.''\<rparr>" by (rule rev_mp)
  from th have "savedTranscripts ?s1 = savedTranscripts talkedApp @
       (if messages talkedApp \<noteq> [] then [\<lparr>id_session = ''transcript-'' @ decimal 30, timestamp = 31,
           messages_session = filter (\<lambda>msg. \<not> isPartial msg) (messages talkedApp)\<rparr>] else [])"
    by (elim conjE)
  then have c: "savedTranscripts ?s1 = [\<lparr>id_session = ''transcript-30'', timestamp = 31,
          messages_session =
            [\<lparr>id_msg = ''model-20'', speaker = MODEL, text_msg = ''Hello'', isPartial = False\<rparr>]\<rparr>]"
    by (simp add: talkedApp_messages talkedApp_savedTranscripts decimal.simps)
  have d: "savedTranscripts ?s2 = savedTranscripts ?s1"
    by (subst b) simp
  show ?thesis
    by (intro conjI a b) (simp only: d c)
qed

text \<open>Where the specification's sentence fails: a stop on the freshly mounted component is not a
  no-op (the status text changes); the second of two stops in a row is not a no-op either
  when the first one saved a transcript (the status text changes again); and two stops in
  a row on a session whose transcript is empty commit no archive entry at all.\<close>

theorem stop_on_idle_changes_status:
  "stopInterview [] 3 4 initialApp \<noteq> initialApp
   \<and> statusMessage (stopInterview [] 3 4 initialApp) = ''Interview ended.''
   \<and> statusMessage initialApp = ''Press the mic to start the interview.''
   \<and> statusMessage (stopInterview (messages talkedApp) 30 31 talkedApp)
       = ''Interview ended and transcript saved!''
   \<and> statusMessage (stopInterview [] 40 41 (stopInterview (messages talkedApp) 30 31 talkedApp))
       = ''Interview ended.''
   \<and> savedTranscripts (stopInterview [] 5 6 (stopInterview [] 3 4 connectingApp)) = []"
proof -
  have s: "statusMessage (stopInterview [] 3 4 initialApp) = ''Interview ended.''"
    using stopInterview_when_stopped [of initialApp 3 4]
    by (simp add: stopped_def initialApp_def)
  have i: "statusMessage initialApp = ''Press the mic to start the interview.''"
    by (simp add: initialApp_def)
  have n: "stopInterview [] 3 4 initialApp \<noteq> initialApp"
  proof
    assume "stopInterview [] 3 4 initialApp = initialApp"
    then have "statusMessage (stopInterview [] 3 4 initialApp) = statusMessage initialApp"
      by simp
    then show False by (simp only: s i) simp
  qed
  have c: "savedTranscripts connectingApp = []"
    by (simp add: connectingApp_def startInterview_def initialApp_def setMessages_def
        clearPartialMessages_def)
  show ?thesis
    by (simp add: s i n stopInterview_savedTranscripts c stopInterview_statusMessage
        talkedApp_messages)
qed

section \<open>The scheduler of the specification\<close>

lemma handleMessage_audioChunk:
  assumes "encoded \<noteq> ''''" "outputAudioContextRef s \<noteq> None" "d encoded = Inr duration"
  shows "handleMessage r d c (audioChunk encoded) s =
    (None, s\<lparr>nextStartTimeRef := max (nextStartTimeRef s) (currentTime c) + duration,
             started := started s @ [(max (nextStartTimeRef s) (currentTime c), duration)],
             outputAudioSourcesRef := setAdd (length (started s)) (outputAudioSourcesRef s),
             statusMessage := ''Speaking...''\<rparr>)"
  using assms
  by (simp add: handleMessage_def handleInputTranscription_def handleOutputTranscription_def
      processAudio_def base64EncodedAudioString_def handleTurnComplete_def handleInterrupted_def
      message_defs Let_def)

lemma backToBack_length [simp]: "length (backToBack c xs) = length xs"
  by (induction xs arbitrary: c) auto

lemma backToBack_snd: "i < length xs \<Longrightarrow> snd (backToBack c xs ! i) = snd (xs ! i)"
  by (induction xs arbitrary: c i) (auto simp: nth_Cons split: nat.splits)

lemma backToBack_first: "xs \<noteq> [] \<Longrightarrow> fst (backToBack c xs ! 0) = max c (fst (xs ! 0))"
  by (cases xs) auto

lemma backToBack_next:
  "Suc i < length xs \<Longrightarrow>
   fst (backToBack c xs ! Suc i)
     = max (fst (backToBack c xs ! i) + snd (backToBack c xs ! i)) (fst (xs ! Suc i))"
proof (induction xs arbitrary: c i)
  case Nil
  then show ?case by simp
next
  case (Cons x xs)
  obtain now dur where x: "x = (now, dur)" by (cases x)
  show ?case
  proof (cases i)
    case 0
    with Cons.prems have "xs \<noteq> []" by auto
    then show ?thesis using 0 x by (simp add: backToBack_first)
  next
    case (Suc j)
    with Cons.prems have "Suc j < length xs" by simp
    from Cons.IH [OF this] show ?thesis using Suc x by simp
  qed
qed

lemma backToBack_sorted:
  assumes "\<forall>x \<in> set xs. 0 \<le> snd x"
  shows "sorted (map fst (backToBack c xs))"
proof -
  have "fst (backToBack c xs ! i) \<le> fst (backToBack c xs ! Suc i)" if "Suc i < length xs" for i
  proof -
    have "0 \<le> snd (xs ! i)" using assms that by simp
    then have "0 \<le> snd (backToBack c xs ! i)" using that by (simp add: backToBack_snd)
    then show ?thesis using backToBack_next [OF that, of c] by linarith
  qed
  then show ?thesis by (simp add: sorted_iff_nth_Suc)
qed

lemma set_setAdd: "set (setAdd x xs) = insert x (set xs)"
  by (auto simp: setAdd_def)

lemma connectingApp_scheduler:
  "outputAudioContextRef connectingApp \<noteq> None" "started connectingApp = []"
  "nextStartTimeRef connectingApp = 0"
  by (simp_all add: connectingApp_def startInterview_def initialApp_def setMessages_def
      clearPartialMessages_def)

section \<open>The order of the fields of one message\<close>

lemma handleInputTranscription_frame [simp]:
  "started (handleInputTranscription n m s) = started s"
  "stopCalls (handleInputTranscription n m s) = stopCalls s"
  "outputAudioSourcesRef (handleInputTranscription n m s) = outputAudioSourcesRef s"
  "nextStartTimeRef (handleInputTranscription n m s) = nextStartTimeRef s"
  "outputAudioContextRef (handleInputTranscription n m s) = outputAudioContextRef s"
  "currentOutputTranscriptionRef (handleInputTranscription n m s) = currentOutputTranscriptionRef s"
  "lastModelMessageIdRef (handleInputTranscription n m s) = lastModelMessageIdRef s"
  by (simp_all add: handleInputTranscription_def setMessages_def Let_def split: option.splits)

lemma handleOutputTranscription_frame [simp]:
  "started (handleOutputTranscription n m s) = started s"
  "stopCalls (handleOutputTranscription n m s) = stopCalls s"
  "outputAudioSourcesRef (handleOutputTranscription n m s) = outputAudioSourcesRef s"
  "nextStartTimeRef (handleOutputTranscription n m s) = nextStartTimeRef s"
  "outputAudioContextRef (handleOutputTranscription n m s) = outputAudioContextRef s"
  "currentInputTranscriptionRef (handleOutputTranscription n m s) = currentInputTranscriptionRef s"
  "lastUserMessageIdRef (handleOutputTranscription n m s) = lastUserMessageIdRef s"
  by (simp_all add: handleOutputTranscription_def setMessages_def Let_def split: option.splits)

lemma handleInputTranscription_slot:
  assumes "inputTranscription content = Some t" "t \<noteq> ''''"
  shows "currentInputTranscriptionRef (handleInputTranscription n (Some content) s) = t"
    "lastUserMessageIdRef (handleInputTranscription n (Some content) s)
       = (if lastUserMessageIdRef s = '''' then ''user-'' @ decimal n else lastUserMessageIdRef s)"
  using assms by (simp_all add: handleInputTranscription_def setMessages_def Let_def)

lemma handleOutputTranscription_slot:
  assumes "outputTranscription content = Some t" "t \<noteq> ''''"
  shows "currentOutputTranscriptionRef (handleOutputTranscription n (Some content) s) = t"
    "lastModelMessageIdRef (handleOutputTranscription n (Some content) s)
       = (if lastModelMessageIdRef s = '''' then ''model-'' @ decimal n else lastModelMessageIdRef s)"
  using assms by (simp_all add: handleOutputTranscription_def setMessages_def Let_def)

lemma processAudio_frame [simp]:
  "messages (snd (processAudio d now m s)) = messages s"
  "stopCalls (snd (processAudio d now m s)) = stopCalls s"
  "currentInputTranscriptionRef (snd (processAudio d now m s)) = currentInputTranscriptionRef s"
  "currentOutputTranscriptionRef (snd (processAudio d now m s)) = currentOutputTranscriptionRef s"
  "lastUserMessageIdRef (snd (processAudio d now m s)) = lastUserMessageIdRef s"
  "lastModelMessageIdRef (snd (processAudio d now m s)) = lastModelMessageIdRef s"
  by (simp_all add: processAudio_def Let_def split: sum.splits option.splits)

lemma processAudio_keeps_live:
  "set (outputAudioSourcesRef s) \<subseteq> set (outputAudioSourcesRef (snd (processAudio d now m s)))"
  by (auto simp add: processAudio_def Let_def set_setAdd split: sum.splits option.splits)

lemma processAudio_enqueue:
  assumes "base64EncodedAudioString m = Inr (Some encoded)" "encoded \<noteq> ''''"
    "outputAudioContextRef s \<noteq> None" "d encoded = Inr duration"
  shows "processAudio d now m s =
    (None, s\<lparr>nextStartTimeRef := max (nextStartTimeRef s) now + duration,
             started := started s @ [(max (nextStartTimeRef s) now, duration)],
             outputAudioSourcesRef := setAdd (length (started s)) (outputAudioSourcesRef s),
             statusMessage := ''Speaking...''\<rparr>)"
  using assms by (simp add: processAudio_def Let_def)

lemma handleTurnComplete_frame [simp]:
  "started (handleTurnComplete r m s) = started s"
  "stopCalls (handleTurnComplete r m s) = stopCalls s"
  "outputAudioSourcesRef (handleTurnComplete r m s) = outputAudioSourcesRef s"
  "nextStartTimeRef (handleTurnComplete r m s) = nextStartTimeRef s"
  by (simp_all add: handleTurnComplete_def setMessages_def Let_def split: option.splits)


lemma handleTurnComplete_flag_messages:
  assumes "turnComplete content"
  shows "messages (handleTurnComplete r (Some content) s) = messages s
     @ (if currentInputTranscriptionRef s \<noteq> '''' then
          [\<lparr>id_msg = lastUserMessageIdRef s, speaker = USER,
            text_msg = currentInputTranscriptionRef s, isPartial = False\<rparr>] else [])
     @ (if currentOutputTranscriptionRef s \<noteq> '''' then
          [\<lparr>id_msg = lastModelMessageIdRef s, speaker = MODEL,
            text_msg = currentOutputTranscriptionRef s, isPartial = False\<rparr>] else [])"
  using assms
  by (cases "currentInputTranscriptionRef s = ''''"; cases "currentOutputTranscriptionRef s = ''''")
     (simp_all add: handleTurnComplete_def setMessages_def addMessage_def Let_def)

lemma handleTurnComplete_flag_slots:
  assumes "turnComplete content"
  shows "currentInputTranscriptionRef (handleTurnComplete r (Some content) s) = ''''"
    "currentOutputTranscriptionRef (handleTurnComplete r (Some content) s) = ''''"
  using assms
  by (cases "currentInputTranscriptionRef s = ''''"; cases "currentOutputTranscriptionRef s = ''''";
      simp add: handleTurnComplete_def setMessages_def Let_def)+

lemma handleInterrupted_flag:
  assumes "interrupted content"
  shows "handleInterrupted (Some content) s =
     s\<lparr>stopCalls := stopCalls s @ outputAudioSourcesRef s, outputAudioSourcesRef := [],
       nextStartTimeRef := 0, messages := filter (\<lambda>m. \<not> isPartial m) (messages s),
       statusMessage := ''Conversation interrupted. Please speak again.''\<rparr>"
  using assms by (simp add: handleInterrupted_def setMessages_def clearPartialMessages_def)

lemma handleInterrupted_keeps_final:
  "m \<in> set (messages s) \<Longrightarrow> \<not> isPartial m \<Longrightarrow> m \<in> set (messages (handleInterrupted msg s))"
  by (simp add: handleInterrupted_def setMessages_def clearPartialMessages_def Let_def
      split: option.splits)

lemma handleInterrupted_slots [simp]:
  "currentInputTranscriptionRef (handleInterrupted m s) = currentInputTranscriptionRef s"
  "currentOutputTranscriptionRef (handleInterrupted m s) = currentOutputTranscriptionRef s"
  "started (handleInterrupted m s) = started s"
  by (simp_all add: handleInterrupted_def setMessages_def Let_def split: option.splits)

lemma handleMessage_completes:
  assumes "fst (handleMessage r d clock m s) = None"
  shows "afterMessage r d clock m s =
     handleInterrupted m (handleTurnComplete r m
       (snd (processAudio d (currentTime clock) m
          (handleOutputTranscription (dateNowModel clock) m
             (handleInputTranscription (dateNowUser clock) m s)))))"
  using assms
  by (simp add: handleMessage_def afterMessage_def Let_def split: prod.splits option.splits)

text \<open>
  The order of the blocks when the audio block does not throw. For every inbound message
  whose audio part is read and decoded without an exception, the handler runs the blocks
  for the user's transcription, the model's transcription, the audio, the turn-complete
  flag and the interrupted flag in this order, each on the state the previous one left.
  So an interrupted flag empties
  the live set, resets the cursor, stops every source that was live, and, when the same
  message carried a chunk that was enqueued, that chunk was started and then stopped; a
  turn-complete flag finalizes the text that a transcription field of the same message
  has just supplied, under the id that field allocated or kept; and after an interrupted
  flag no partial message is left, the finalized ones of the same message included in
  the transcript.
\<close>

lemma fields_handled_in_order:
  assumes "fst (handleMessage r d clock (Some content) s) = None"
  shows "let s' = afterMessage r d clock (Some content) s in
     s' = handleInterrupted (Some content) (handleTurnComplete r (Some content)
            (snd (processAudio d (currentTime clock) (Some content)
               (handleOutputTranscription (dateNowModel clock) (Some content)
                  (handleInputTranscription (dateNowUser clock) (Some content) s)))))
   \<and> (interrupted content \<longrightarrow>
        outputAudioSourcesRef s' = [] \<and> nextStartTimeRef s' = 0
        \<and> set (outputAudioSourcesRef s) \<subseteq> set (stopCalls s')
        \<and> filter isPartial (messages s') = []
        \<and> (\<forall>encoded duration.
              base64EncodedAudioString (Some content) = Inr (Some encoded) \<and> encoded \<noteq> ''''
              \<and> outputAudioContextRef s \<noteq> None \<and> d encoded = Inr duration \<longrightarrow>
              started s' = started s @ [(max (nextStartTimeRef s) (currentTime clock), duration)]
              \<and> length (started s) \<in> set (stopCalls s')))
   \<and> (turnComplete content \<longrightarrow>
        currentInputTranscriptionRef s' = '''' \<and> currentOutputTranscriptionRef s' = ''''
        \<and> (\<forall>t. inputTranscription content = Some t \<and> t \<noteq> '''' \<longrightarrow>
              \<lparr>id_msg = (if lastUserMessageIdRef s = '''' then ''user-'' @ decimal (dateNowUser clock)
                          else lastUserMessageIdRef s),
               speaker = USER, text_msg = t, isPartial = False\<rparr> \<in> set (messages s'))
        \<and> (\<forall>t. outputTranscription content = Some t \<and> t \<noteq> '''' \<longrightarrow>
              \<lparr>id_msg = (if lastModelMessageIdRef s = '''' then ''model-'' @ decimal (dateNowModel clock)
                          else lastModelMessageIdRef s),
               speaker = MODEL, text_msg = t, isPartial = False\<rparr> \<in> set (messages s')))"
proof -
  let ?m = "Some content"
  let ?s1 = "handleInputTranscription (dateNowUser clock) ?m s"
  let ?s2 = "handleOutputTranscription (dateNowModel clock) ?m ?s1"
  let ?s3 = "snd (processAudio d (currentTime clock) ?m ?s2)"
  let ?s4 = "handleTurnComplete r ?m ?s3"
  let ?s5 = "handleInterrupted ?m ?s4"
  have eq: "afterMessage r d clock ?m s = ?s5"
    using assms by (rule handleMessage_completes)
  have live: "set (outputAudioSourcesRef s) \<subseteq> set (outputAudioSourcesRef ?s4)"
    using processAudio_keeps_live [of ?s2 d "currentTime clock" ?m] by simp
  have int: "outputAudioSourcesRef ?s5 = [] \<and> nextStartTimeRef ?s5 = 0
        \<and> set (outputAudioSourcesRef s) \<subseteq> set (stopCalls ?s5)
        \<and> filter isPartial (messages ?s5) = []"
    if "interrupted content"
    using live by (auto simp add: handleInterrupted_flag [OF that])
  have enq: "started ?s5 = started s @ [(max (nextStartTimeRef s) (currentTime clock), duration)]
       \<and> length (started s) \<in> set (stopCalls ?s5)"
    if "interrupted content" "base64EncodedAudioString ?m = Inr (Some encoded)" "encoded \<noteq> ''''"
       "outputAudioContextRef s \<noteq> None" "d encoded = Inr duration"
    for encoded duration
  proof -
    have ctx: "outputAudioContextRef ?s2 \<noteq> None" using that(4) by simp
    have "?s3 = ?s2\<lparr>nextStartTimeRef := max (nextStartTimeRef ?s2) (currentTime clock) + duration,
             started := started ?s2 @ [(max (nextStartTimeRef ?s2) (currentTime clock), duration)],
             outputAudioSourcesRef := setAdd (length (started ?s2)) (outputAudioSourcesRef ?s2),
             statusMessage := ''Speaking...''\<rparr>"
      by (simp add: processAudio_enqueue [where d = d, OF that(2) that(3) ctx that(5)])
    then have "started ?s3 = started s @ [(max (nextStartTimeRef s) (currentTime clock), duration)]"
      and "length (started s) \<in> set (outputAudioSourcesRef ?s3)"
      by (simp_all add: set_setAdd)
    then show ?thesis by (simp add: handleInterrupted_flag [OF that(1)])
  qed
  have slots: "currentInputTranscriptionRef ?s5 = '''' \<and> currentOutputTranscriptionRef ?s5 = ''''"
    if "turnComplete content"
    by (simp add: handleTurnComplete_flag_slots [OF that])
  have user: "\<lparr>id_msg = (if lastUserMessageIdRef s = '''' then ''user-'' @ decimal (dateNowUser clock)
                          else lastUserMessageIdRef s),
               speaker = USER, text_msg = t, isPartial = False\<rparr> \<in> set (messages ?s5)"
    if "turnComplete content" "inputTranscription content = Some t" "t \<noteq> ''''" for t
  proof -
    have "currentInputTranscriptionRef ?s3 = t"
      and "lastUserMessageIdRef ?s3 = (if lastUserMessageIdRef s = ''''
             then ''user-'' @ decimal (dateNowUser clock) else lastUserMessageIdRef s)"
      by (simp_all add: handleInputTranscription_slot [OF that(2) that(3)])
    then have "\<lparr>id_msg = (if lastUserMessageIdRef s = '''' then ''user-'' @ decimal (dateNowUser clock)
                          else lastUserMessageIdRef s),
               speaker = USER, text_msg = t, isPartial = False\<rparr> \<in> set (messages ?s4)"
      using that(3) by (simp add: handleTurnComplete_flag_messages [OF that(1)])
    then show ?thesis by (rule handleInterrupted_keeps_final) simp
  qed
  have model: "\<lparr>id_msg = (if lastModelMessageIdRef s = '''' then ''model-'' @ decimal (dateNowModel clock)
                          else lastModelMessageIdRef s),
               speaker = MODEL, text_msg = t, isPartial = False\<rparr> \<in> set (messages ?s5)"
    if "turnComplete content" "outputTranscription content = Some t" "t \<noteq> ''''" for t
  proof -
    have "currentOutputTranscriptionRef ?s3 = t"
      and "lastModelMessageIdRef ?s3 = (if lastModelMessageIdRef s = ''''
             then ''model-'' @ decimal (dateNowModel clock) else lastModelMessageIdRef s)"
      by (simp_all add: handleOutputTranscription_slot [OF that(2) that(3)])
    then have "\<lparr>id_msg = (if lastModelMessageIdRef s = '''' then ''model-'' @ decimal (dateNowModel clock)
                          else lastModelMessageIdRef s),
               speaker = MODEL, text_msg = t, isPartial = False\<rparr> \<in> set (messages ?s4)"
      using that(3) by (simp add: handleTurnComplete_flag_messages [OF that(1)])
    then show ?thesis by (rule handleInterrupted_keeps_final) simp
  qed
  show ?thesis
    unfolding Let_def eq
    using int enq slots user model by blast
qed

lemma handleMessage_throws:
  "fst (handleMessage r d clock m s) =
     fst (processAudio d (currentTime clock) m
       (handleOutputTranscription (dateNowModel clock) m
          (handleInputTranscription (dateNowUser clock) m s)))"
  by (simp add: handleMessage_def Let_def split: prod.splits option.splits)

text \<open>A message with a model transcription, a chunk and both flags, on the connecting
  session: the chunk is started and stopped, and the text is finalized.\<close>

lemma fields_handled_in_order_fullContent:
  "fst (handleMessage False halfSecondPerChar (clockAt 12 0) (Some fullContent) connectingApp) = None
   \<and> started (afterMessage False halfSecondPerChar (clockAt 12 0) (Some fullContent) connectingApp)
       = [(0, 1)]
   \<and> 0 \<in> set (stopCalls
        (afterMessage False halfSecondPerChar (clockAt 12 0) (Some fullContent) connectingApp))
   \<and> outputAudioSourcesRef
        (afterMessage False halfSecondPerChar (clockAt 12 0) (Some fullContent) connectingApp) = []
   \<and> \<lparr>id_msg = ''model-12'', speaker = MODEL, text_msg = ''Hi'', isPartial = False\<rparr>
        \<in> set (messages
             (afterMessage False halfSecondPerChar (clockAt 12 0) (Some fullContent) connectingApp))"
proof -
  let ?s' = "afterMessage False halfSecondPerChar (clockAt 12 0) (Some fullContent) connectingApp"
  have b: "base64EncodedAudioString (Some fullContent) = Inr (Some ''ab'')"
    by (simp add: base64EncodedAudioString_def fullContent_def)
  have dec: "halfSecondPerChar ''ab'' = Inr 1" by (simp add: halfSecondPerChar_def)
  have h: "fst (handleMessage False halfSecondPerChar (clockAt 12 0) (Some fullContent)
             connectingApp) = None"
    unfolding handleMessage_throws
    by (subst processAudio_enqueue [where d = halfSecondPerChar, OF b _ _ dec])
       (simp_all add: connectingApp_scheduler)
  note ordered = fields_handled_in_order [OF h, unfolded Let_def]
  have i: "interrupted fullContent" and c: "turnComplete fullContent"
    and o: "outputTranscription fullContent = Some ''Hi''"
    by (simp_all add: fullContent_def)
  from ordered i have "outputAudioSourcesRef ?s' = []"
    and "\<forall>encoded duration.
           base64EncodedAudioString (Some fullContent) = Inr (Some encoded) \<and> encoded \<noteq> ''''
           \<and> outputAudioContextRef connectingApp \<noteq> None
           \<and> halfSecondPerChar encoded = Inr duration \<longrightarrow>
           started ?s' = started connectingApp
             @ [(max (nextStartTimeRef connectingApp) (currentTime (clockAt 12 0)), duration)]
           \<and> length (started connectingApp) \<in> set (stopCalls ?s')"
    by blast+
  with b dec connectingApp_scheduler(1)
  have "outputAudioSourcesRef ?s' = []"
    and "started ?s' = started connectingApp
           @ [(max (nextStartTimeRef connectingApp) (currentTime (clockAt 12 0)), 1)]
         \<and> length (started connectingApp) \<in> set (stopCalls ?s')"
    by blast+
  then have 1: "outputAudioSourcesRef ?s' = []" and 2: "started ?s' = [(0, 1)]"
    and 3: "0 \<in> set (stopCalls ?s')"
    by (simp_all add: connectingApp_scheduler clockAt_def)
  from ordered c o
  have "\<lparr>id_msg = (if lastModelMessageIdRef connectingApp = ''''
                     then ''model-'' @ decimal (dateNowModel (clockAt 12 0))
                     else lastModelMessageIdRef connectingApp),
          speaker = MODEL, text_msg = ''Hi'', isPartial = False\<rparr> \<in> set (messages ?s')"
    by blast
  moreover have "lastModelMessageIdRef connectingApp = ''''"
    by (simp add: connectingApp_def startInterview_def initialApp_def setMessages_def
        clearPartialMessages_def)
  ultimately have 4: "\<lparr>id_msg = ''model-12'', speaker = MODEL, text_msg = ''Hi'',
      isPartial = False\<rparr> \<in> set (messages ?s')"
    by (simp add: clockAt_def decimal.simps)
  from h 2 3 1 4 show ?thesis by (intro conjI)
qed

lemma handleMessage_emptyTurnInterrupted:
  "handleMessage r d c emptyTurnInterrupted s =
     (None, handleInterrupted emptyTurnInterrupted s)"
  by (simp add: handleMessage_def handleInputTranscription_def handleOutputTranscription_def
      processAudio_def base64EncodedAudioString_def handleTurnComplete_def
      emptyTurnInterrupted_def emptyContent_def)

lemma playingApp_live:
  "outputAudioSourcesRef playingApp = [0]" "stopCalls playingApp = []"
proof -
  have ctx: "outputAudioContextRef (onopen (resolveSession 0 connectingApp)) \<noteq> None"
    using connectingApp_scheduler(1) by (simp add: onopen_def resolveSession_def onPromise_def)
  have dec: "halfSecondPerChar ''ab'' = Inr 1" by (simp add: halfSecondPerChar_def)
  have ne: "''ab'' \<noteq> ''''" by simp
  note e = handleMessage_audioChunk [where d = halfSecondPerChar, OF ne ctx dec]
  show "outputAudioSourcesRef playingApp = [0]" "stopCalls playingApp = []"
    unfolding playingApp_def afterMessage_def e
    by (simp_all add: onopen_def resolveSession_def onPromise_def connectingApp_def
        startInterview_def initialApp_def setMessages_def clearPartialMessages_def setAdd_def)
qed

text \<open>
  C8, evaluated where it fails. One chunk is playing; a message arrives whose model turn
  has no \<open>parts\<close> and whose interrupted flag is set. The audio block reads
  \<open>message.serverContent?.modelTurn?.parts[0]?.inlineData?.data\<close>: every step of the
  expression is guarded by optional chaining but the index into \<open>parts\<close>, so the read
  throws, the handler ends there, and the interrupted flag, a present field of the
  message, is not handled: the source stays in the live set and \<open>stop()\<close> is never
  called. With an empty \<open>parts\<close> in the place of the missing one the read gives no audio
  data, the handler completes, and the interrupted flag stops the source.
\<close>

theorem interrupted_skipped_when_parts_missing:
  "handleMessage False halfSecondPerChar (clockAt 11 1) brokenTurnInterrupted playingApp
     = (Some TypeError, playingApp)
   \<and> outputAudioSourcesRef playingApp = [0] \<and> stopCalls playingApp = []
   \<and> fst (handleMessage False halfSecondPerChar (clockAt 11 1) emptyTurnInterrupted playingApp)
       = None
   \<and> outputAudioSourcesRef
       (afterMessage False halfSecondPerChar (clockAt 11 1) emptyTurnInterrupted playingApp) = []
   \<and> stopCalls
       (afterMessage False halfSecondPerChar (clockAt 11 1) emptyTurnInterrupted playingApp) = [0]"
proof -
  have 1: "handleMessage False halfSecondPerChar (clockAt 11 1) brokenTurnInterrupted playingApp
     = (Some TypeError, playingApp)"
    by (simp add: handleMessage_def handleInputTranscription_def
      handleOutputTranscription_def processAudio_def base64EncodedAudioString_def
      brokenTurnInterrupted_def emptyContent_def)
  have i: "interrupted (emptyContent\<lparr>modelTurn := Some (Some []), interrupted := True\<rparr>)"
    by simp
  have 2: "outputAudioSourcesRef
       (afterMessage False halfSecondPerChar (clockAt 11 1) emptyTurnInterrupted playingApp) = []"
    and 3: "stopCalls
       (afterMessage False halfSecondPerChar (clockAt 11 1) emptyTurnInterrupted playingApp) = [0]"
    unfolding afterMessage_def handleMessage_emptyTurnInterrupted
    by (simp_all add: emptyTurnInterrupted_def handleInterrupted_flag [OF i] playingApp_live)
  show ?thesis
    by (intro conjI 1 2 3 playingApp_live) (simp add: handleMessage_emptyTurnInterrupted)
qed

section \<open>Scheduling of audio chunks\<close>

lemma handleInterrupted_idle:
  "(case m of None \<Rightarrow> True | Some content \<Rightarrow> \<not> interrupted content) \<Longrightarrow> handleInterrupted m s = s"
  by (simp add: handleInterrupted_def split: option.splits)

lemma handleTurnComplete_context [simp]:
  "outputAudioContextRef (handleTurnComplete r m s) = outputAudioContextRef s"
  by (simp add: handleTurnComplete_def setMessages_def Let_def split: option.splits)

lemma processAudio_uninterrupted:
  assumes "uninterrupted d m" "outputAudioContextRef s \<noteq> None"
  shows "processAudio d now m s =
     (None, case chunkOf d (c, m) of
              None \<Rightarrow> s
            | Some (t, duration) \<Rightarrow>
                s\<lparr>nextStartTimeRef := max (nextStartTimeRef s) now + duration,
                  started := started s @ [(max (nextStartTimeRef s) now, duration)],
                  outputAudioSourcesRef := setAdd (length (started s)) (outputAudioSourcesRef s),
                  statusMessage := ''Speaking...''\<rparr>)"
  using assms
  by (auto simp add: processAudio_def uninterrupted_def chunkOf_def Let_def
      split: sum.splits option.splits)

lemma afterMessage_scheduler:
  assumes "uninterrupted d m" "outputAudioContextRef s \<noteq> None"
  shows "started (afterMessage r d c m s) = started s
           @ (case chunkOf d (c, m) of None \<Rightarrow> []
              | Some (now, duration) \<Rightarrow> [(max (nextStartTimeRef s) now, duration)])"
    and "nextStartTimeRef (afterMessage r d c m s)
           = (case chunkOf d (c, m) of None \<Rightarrow> nextStartTimeRef s
              | Some (now, duration) \<Rightarrow> max (nextStartTimeRef s) now + duration)"
    and "outputAudioContextRef (afterMessage r d c m s) \<noteq> None"
    and "set (outputAudioSourcesRef (afterMessage r d c m s)) = set (outputAudioSourcesRef s)
           \<union> (case chunkOf d (c, m) of None \<Rightarrow> {} | Some x \<Rightarrow> {length (started s)})"
    and "stopCalls (afterMessage r d c m s) = stopCalls s"
proof -
  let ?s2 = "handleOutputTranscription (dateNowModel c) m
               (handleInputTranscription (dateNowUser c) m s)"
  have ctx: "outputAudioContextRef ?s2 \<noteq> None" using assms(2) by simp
  note pa = processAudio_uninterrupted [OF assms(1) ctx, of "currentTime c" c]
  have quiet: "case m of None \<Rightarrow> True | Some content \<Rightarrow> \<not> interrupted content"
    using assms(1) by (simp add: uninterrupted_def)
  have now: "chunkOf d (c, m) = Some (t, duration) \<Longrightarrow> t = currentTime c" for t duration
    by (auto simp add: chunkOf_def split: sum.splits option.splits if_splits)
  have eq: "afterMessage r d c m s = handleTurnComplete r m
      (case chunkOf d (c, m) of
              None \<Rightarrow> ?s2
            | Some (t, duration) \<Rightarrow>
                ?s2\<lparr>nextStartTimeRef := max (nextStartTimeRef ?s2) (currentTime c) + duration,
                  started := started ?s2 @ [(max (nextStartTimeRef ?s2) (currentTime c), duration)],
                  outputAudioSourcesRef := setAdd (length (started ?s2)) (outputAudioSourcesRef ?s2),
                  statusMessage := ''Speaking...''\<rparr>)"
    by (simp add: afterMessage_def handleMessage_def Let_def pa handleInterrupted_idle [OF quiet])
  show "started (afterMessage r d c m s) = started s
           @ (case chunkOf d (c, m) of None \<Rightarrow> []
              | Some (now, duration) \<Rightarrow> [(max (nextStartTimeRef s) now, duration)])"
    unfolding eq using now by (auto split: option.splits)
  show "nextStartTimeRef (afterMessage r d c m s)
           = (case chunkOf d (c, m) of None \<Rightarrow> nextStartTimeRef s
              | Some (now, duration) \<Rightarrow> max (nextStartTimeRef s) now + duration)"
    unfolding eq using now by (auto split: option.splits)
  show "outputAudioContextRef (afterMessage r d c m s) \<noteq> None"
    unfolding eq using assms(2) by (auto split: option.splits)
  show "set (outputAudioSourcesRef (afterMessage r d c m s)) = set (outputAudioSourcesRef s)
           \<union> (case chunkOf d (c, m) of None \<Rightarrow> {} | Some x \<Rightarrow> {length (started s)})"
    unfolding eq by (auto simp add: set_setAdd split: option.splits)
  show "stopCalls (afterMessage r d c m s) = stopCalls s"
    unfolding eq by (auto split: option.splits)
qed


lemma chunkOf_nonneg:
  "uninterrupted d m \<Longrightarrow> chunkOf d (c, m) = Some (now, duration) \<Longrightarrow> 0 \<le> duration"
  by (auto simp add: uninterrupted_def chunkOf_def split: sum.splits option.splits if_splits)

lemma handleAll_started:
  assumes "outputAudioContextRef s \<noteq> None" "\<forall>(clock, m) \<in> set ms. uninterrupted d m"
  shows "started (handleAll r d ms s)
           = started s @ backToBack (nextStartTimeRef s) (List.map_filter (chunkOf d) ms)
       \<and> outputAudioContextRef (handleAll r d ms s) \<noteq> None
       \<and> stopCalls (handleAll r d ms s) = stopCalls s"
  using assms
proof (induction ms arbitrary: s)
  case Nil
  then show ?case by (simp add: map_filter_simps)
next
  case (Cons x ms)
  obtain c m where x: "x = (c, m)" by (cases x)
  from Cons.prems(2) x have u: "uninterrupted d m" by simp
  let ?s1 = "afterMessage r d c m s"
  note step = afterMessage_scheduler [OF u Cons.prems(1), of r c]
  have ih: "started (handleAll r d ms ?s1)
           = started ?s1 @ backToBack (nextStartTimeRef ?s1) (List.map_filter (chunkOf d) ms)
       \<and> outputAudioContextRef (handleAll r d ms ?s1) \<noteq> None
       \<and> stopCalls (handleAll r d ms ?s1) = stopCalls ?s1"
    by (rule Cons.IH [OF step(3)]) (use Cons.prems(2) in simp)
  have run: "handleAll r d (x # ms) s = handleAll r d ms ?s1" by (simp add: x)
  show ?case
    unfolding run
    by (cases "chunkOf d (c, m)") (use ih in \<open>auto simp add: step x map_filter_simps\<close>)
qed

lemma handleAll_cursor:
  assumes "outputAudioContextRef s \<noteq> None" "\<forall>(clock, m) \<in> set ms. uninterrupted d m"
  shows "nextStartTimeRef (handleAll r d ms s) =
     (if List.map_filter (chunkOf d) ms = [] then nextStartTimeRef s
      else fst (last (backToBack (nextStartTimeRef s) (List.map_filter (chunkOf d) ms)))
         + snd (last (backToBack (nextStartTimeRef s) (List.map_filter (chunkOf d) ms))))"
  using assms
proof (induction ms arbitrary: s)
  case Nil
  then show ?case by (simp add: map_filter_simps)
next
  case (Cons x ms)
  obtain c m where x: "x = (c, m)" by (cases x)
  from Cons.prems(2) x have u: "uninterrupted d m" by simp
  let ?s1 = "afterMessage r d c m s"
  let ?rest = "List.map_filter (chunkOf d) ms"
  note step = afterMessage_scheduler [OF u Cons.prems(1), of r c]
  have ih: "nextStartTimeRef (handleAll r d ms ?s1) =
     (if ?rest = [] then nextStartTimeRef ?s1
      else fst (last (backToBack (nextStartTimeRef ?s1) ?rest))
         + snd (last (backToBack (nextStartTimeRef ?s1) ?rest)))"
    by (rule Cons.IH [OF step(3)]) (use Cons.prems(2) in simp)
  have run: "handleAll r d (x # ms) s = handleAll r d ms ?s1" by (simp add: x)
  have nonempty: "?rest \<noteq> [] \<Longrightarrow> backToBack k ?rest \<noteq> []" for k
    by (cases ?rest) auto
  show ?case
  proof (cases "chunkOf d (c, m)")
    case None
    then show ?thesis unfolding run ih by (simp add: step(2) x map_filter_simps)
  next
    case (Some a)
    obtain now duration where a: "a = (now, duration)" by (cases a)
    show ?thesis
      unfolding run ih using nonempty
      by (cases "?rest = []") (simp_all add: step(2) x Some a map_filter_simps)
  qed
qed

lemma handleAll_live:
  assumes "outputAudioContextRef s \<noteq> None" "\<forall>(clock, m) \<in> set ms. uninterrupted d m"
  shows "set (outputAudioSourcesRef (handleAll r d ms s)) = set (outputAudioSourcesRef s)
     \<union> {length (started s) ..< length (started s) + length (List.map_filter (chunkOf d) ms)}"
  using assms
proof (induction ms arbitrary: s)
  case Nil
  then show ?case by (simp add: map_filter_simps)
next
  case (Cons x ms)
  obtain c m where x: "x = (c, m)" by (cases x)
  from Cons.prems(2) x have u: "uninterrupted d m" by simp
  let ?s1 = "afterMessage r d c m s"
  let ?rest = "List.map_filter (chunkOf d) ms"
  let ?n = "length (started s)"
  note step = afterMessage_scheduler [OF u Cons.prems(1), of r c]
  have ih: "set (outputAudioSourcesRef (handleAll r d ms ?s1)) = set (outputAudioSourcesRef ?s1)
     \<union> {length (started ?s1) ..< length (started ?s1) + length ?rest}"
    by (rule Cons.IH [OF step(3)]) (use Cons.prems(2) in simp)
  have run: "handleAll r d (x # ms) s = handleAll r d ms ?s1" by (simp add: x)
  show ?case
  proof (cases "chunkOf d (c, m)")
    case None
    then show ?thesis unfolding run ih by (simp add: step x map_filter_simps)
  next
    case (Some a)
    obtain now duration where a: "a = (now, duration)" by (cases a)
    have 1: "set (outputAudioSourcesRef ?s1) = insert ?n (set (outputAudioSourcesRef s))"
      by (simp add: step(4) Some)
    have 2: "length (started ?s1) = Suc ?n" by (simp add: step(1) Some a)
    have 3: "List.map_filter (chunkOf d) (x # ms) = a # ?rest"
      by (simp add: x Some map_filter_simps)
    have 4: "{?n ..< ?n + length (a # ?rest)} = insert ?n {Suc ?n ..< Suc ?n + length ?rest}"
      by auto
    show ?thesis unfolding run ih 1 2 3 4 by blast
  qed
qed

text \<open>
  C1, as the code has it. Messages are handled one after the other from a state whose
  output context is open; none of them interrupts (no interrupted flag, no exception in
  the audio block, buffers of non-negative duration) and no stop comes in between. The
  clock is read once per message, before the decoding is awaited. Each chunk is started
  at the maximum of the cursor and the clock reading of its message, and the cursor then
  advances by the chunk's duration: the starts are those of the specification's
  scheduler on the chunks of the run. So a handle starts at the maximum of the previous
  handle's end (start plus duration) and the clock read for it: never before the previous
  end (no overlap), exactly at the previous end when the clock has not passed it
  (gapless), and later than it otherwise. Start times never decrease, the cursor ends at
  the end of the last handle, the new handles join the live set and none is stopped.
\<close>

theorem chunks_are_scheduled_back_to_back:
  assumes "outputAudioContextRef s \<noteq> None" "\<forall>(clock, m) \<in> set ms. uninterrupted d m"
  shows "let s' = handleAll r d ms s;
             chunks = List.map_filter (chunkOf d) ms;
             new = drop (length (started s)) (started s') in
     started s' = started s @ new
   \<and> new = backToBack (nextStartTimeRef s) chunks
   \<and> map snd new = map snd chunks
   \<and> (chunks \<noteq> [] \<longrightarrow> fst (new ! 0) = max (nextStartTimeRef s) (fst (chunks ! 0)))
   \<and> (\<forall>i. Suc i < length chunks \<longrightarrow>
        fst (new ! Suc i) = max (fst (new ! i) + snd (new ! i)) (fst (chunks ! Suc i)))
   \<and> (\<forall>i. Suc i < length chunks \<longrightarrow> fst (new ! i) + snd (new ! i) \<le> fst (new ! Suc i))
   \<and> (\<forall>i. Suc i < length chunks \<longrightarrow>
        fst (chunks ! Suc i) \<le> fst (new ! i) + snd (new ! i) \<longrightarrow>
        fst (new ! Suc i) = fst (new ! i) + snd (new ! i))
   \<and> sorted (map fst new)
   \<and> nextStartTimeRef s' =
        (if chunks = [] then nextStartTimeRef s else fst (last new) + snd (last new))
   \<and> set (outputAudioSourcesRef s')
        = set (outputAudioSourcesRef s) \<union> {length (started s) ..< length (started s')}
   \<and> stopCalls s' = stopCalls s"
proof -
  let ?chunks = "List.map_filter (chunkOf d) ms"
  let ?new = "backToBack (nextStartTimeRef s) ?chunks"
  let ?s' = "handleAll r d ms s"
  note run = handleAll_started [OF assms, of r]
  have st: "started ?s' = started s @ ?new" using run by blast
  have dr: "drop (length (started s)) (started ?s') = ?new" by (simp add: st)
  have nonneg: "\<forall>x \<in> set ?chunks. 0 \<le> snd x"
  proof
    fix x assume "x \<in> set ?chunks"
    then obtain c m where "(c, m) \<in> set ms" and "chunkOf d (c, m) = Some x"
      by (auto simp add: map_filter_def)
    moreover from this assms(2) have "uninterrupted d m" by auto
    ultimately show "0 \<le> snd x" using chunkOf_nonneg [of d m c "fst x" "snd x"] by simp
  qed
  have durs: "map snd ?new = map snd ?chunks"
    by (rule nth_equalityI) (simp_all add: backToBack_snd)
  have first: "fst (?new ! 0) = max (nextStartTimeRef s) (fst (?chunks ! 0))" if "?chunks \<noteq> []"
    using that by (rule backToBack_first)
  have nxt: "fst (?new ! Suc i) = max (fst (?new ! i) + snd (?new ! i)) (fst (?chunks ! Suc i))"
    if "Suc i < length ?chunks" for i
    using that by (rule backToBack_next)
  have noOverlap: "fst (?new ! i) + snd (?new ! i) \<le> fst (?new ! Suc i)"
    if "Suc i < length ?chunks" for i
    unfolding nxt [OF that] by simp
  have gapless: "fst (?new ! Suc i) = fst (?new ! i) + snd (?new ! i)"
    if "Suc i < length ?chunks" "fst (?chunks ! Suc i) \<le> fst (?new ! i) + snd (?new ! i)" for i
    unfolding nxt [OF that(1)] using that(2) by simp
  have srt: "sorted (map fst ?new)" using nonneg by (rule backToBack_sorted)
  have cursor: "nextStartTimeRef ?s' =
        (if ?chunks = [] then nextStartTimeRef s else fst (last ?new) + snd (last ?new))"
    by (rule handleAll_cursor [OF assms])
  have live: "set (outputAudioSourcesRef ?s')
        = set (outputAudioSourcesRef s) \<union> {length (started s) ..< length (started ?s')}"
    using handleAll_live [OF assms, of r] by (simp add: st)
  have stops: "stopCalls ?s' = stopCalls s" using run by blast
  show ?thesis
    unfolding Let_def dr
    by (intro conjI allI impI st refl durs first nxt noOverlap gapless srt cursor live stops)
qed

text \<open>The scenario of the specification: chunks of 1 s and 0.5 s, the clock at 0 for both,
  here with a user transcription between them; the handles start at 0 and at 1.\<close>

theorem chunks_are_scheduled_back_to_back_witness:
  "outputAudioContextRef connectingApp \<noteq> None
   \<and> uninterrupted halfSecondPerChar (audioChunk ''ab'')
   \<and> uninterrupted halfSecondPerChar (inputPartial ''hi'')
   \<and> uninterrupted halfSecondPerChar (audioChunk ''c'')
   \<and> started (handleAll False halfSecondPerChar
        [(clockAt 1 0, audioChunk ''ab''), (clockAt 2 0, inputPartial ''hi''),
         (clockAt 3 0, audioChunk ''c'')] connectingApp) = [(0, 1), (1, 1 / 2)]"
proof -
  let ?ms = "[(clockAt 1 0, audioChunk ''ab''), (clockAt 2 0, inputPartial ''hi''),
              (clockAt 3 0, audioChunk ''c'')]"
  let ?s' = "handleAll False halfSecondPerChar ?ms connectingApp"
  have ctx: "outputAudioContextRef connectingApp \<noteq> None"
    by (rule connectingApp_scheduler)
  have u: "uninterrupted halfSecondPerChar (audioChunk ''ab'')"
    "uninterrupted halfSecondPerChar (inputPartial ''hi'')"
    "uninterrupted halfSecondPerChar (audioChunk ''c'')"
    by (simp_all add: uninterrupted_def message_defs base64EncodedAudioString_def
        halfSecondPerChar_def)
  have ok: "\<forall>(clock, m) \<in> set ?ms. uninterrupted halfSecondPerChar m"
    using u by simp
  note sched = chunks_are_scheduled_back_to_back [OF ctx ok, of False, unfolded Let_def]
  have a: "started ?s' = started connectingApp @ drop (length (started connectingApp)) (started ?s')"
    using sched by (elim conjE)
  have b: "drop (length (started connectingApp)) (started ?s')
      = backToBack (nextStartTimeRef connectingApp) (List.map_filter (chunkOf halfSecondPerChar) ?ms)"
    using sched by (elim conjE)
  have "started ?s' = started connectingApp
        @ backToBack (nextStartTimeRef connectingApp) (List.map_filter (chunkOf halfSecondPerChar) ?ms)"
    by (rule trans [OF a]) (simp only: b)
  also have "\<dots> = [(0, 1), (1, 1 / 2)]"
    by (simp add: connectingApp_scheduler map_filter_simps chunkOf_def message_defs
        base64EncodedAudioString_def halfSecondPerChar_def clockAt_def)
  finally have "started ?s' = [(0, 1), (1, 1 / 2)]" .
  with ctx u show ?thesis by (intro conjI)
qed

text \<open>Where the specification's sentence fails: the first chunk (1 s) is enqueued with the clock at
  0, the second when the clock has reached 5. The second handle starts at 5, not at
  0 + 1.\<close>

theorem start_after_idle_gap:
  "started (handleAll False halfSecondPerChar
      [(clockAt 1 0, audioChunk ''ab''), (clockAt 2 5, audioChunk ''c'')] connectingApp)
     = [(0, 1), (5, 1 / 2)]
   \<and> (5 :: real) \<noteq> 0 + 1"
proof -
  let ?ms = "[(clockAt 1 0, audioChunk ''ab''), (clockAt 2 5, audioChunk ''c'')]"
  have ok: "\<forall>(clock, m) \<in> set ?ms. uninterrupted halfSecondPerChar m"
    by (simp add: uninterrupted_def message_defs base64EncodedAudioString_def
        halfSecondPerChar_def)
  from handleAll_started [OF connectingApp_scheduler(1) ok, of False]
  have eq: "started (handleAll False halfSecondPerChar ?ms connectingApp)
      = started connectingApp
        @ backToBack (nextStartTimeRef connectingApp) (List.map_filter (chunkOf halfSecondPerChar) ?ms)"
    by (elim conjE)
  show ?thesis
    unfolding eq
    by (simp add: connectingApp_scheduler map_filter_simps chunkOf_def message_defs
        base64EncodedAudioString_def halfSecondPerChar_def clockAt_def)
qed

section \<open>Partial transcription updates\<close>

lemma addMessage_partial_Nil:
  "isPartial m \<Longrightarrow> id_msg m \<noteq> '''' \<Longrightarrow> addMessage m [] = [m]"
  by (simp add: addMessage_def)

lemma addMessage_partial_Cons:
  assumes "isPartial m" "id_msg m \<noteq> ''''"
  shows "addMessage m (x # xs) =
     (if id_msg x = id_msg m \<and> speaker x = speaker m then m # xs else x # addMessage m xs)"
  using assms by (simp add: addMessage_def split: option.splits)

lemma set_addMessage: "set (addMessage m ms) \<subseteq> insert m (set ms)"
  by (auto simp add: addMessage_def split: option.splits dest: set_update_subset_insert [THEN subsetD])

lemma partialsLead_addMessage:
  assumes "isPartial m" "id_msg m \<noteq> ''''" "partialsLead ms"
  shows "partialsLead (addMessage m ms)"
  using assms(3)
proof (induction ms)
  case Nil
  then show ?case by (simp add: addMessage_partial_Nil [OF assms(1,2)])
next
  case (Cons x xs)
  show ?case
  proof (cases "id_msg x = id_msg m \<and> speaker x = speaker m")
    case True
    then show ?thesis using Cons.prems
      by (simp add: addMessage_partial_Cons [OF assms(1,2)])
  next
    case False
    have "list_all (\<lambda>m'. \<not> (isPartial m' \<and> id_msg m' = id_msg x \<and> speaker m' = speaker x))
            (addMessage m xs)"
      using Cons.prems False set_addMessage [of m xs]
      by (auto simp add: list_all_iff)
    moreover have "partialsLead (addMessage m xs)" using Cons by simp
    ultimately show ?thesis using False
      by (auto simp add: addMessage_partial_Cons [OF assms(1,2)])
  qed
qed

lemma addMessage_open_partial:
  assumes "isPartial m" "id_msg m \<noteq> ''''" "partialsLead ms"
  shows "filter (\<lambda>x. isPartial x \<and> id_msg x = id_msg m \<and> speaker x = speaker m) (addMessage m ms)
           = [m]"
  using assms(3)
proof (induction ms)
  case Nil
  then show ?case using assms(1) by (simp add: addMessage_partial_Nil [OF assms(1,2)])
next
  case (Cons x xs)
  show ?case
  proof (cases "id_msg x = id_msg m \<and> speaker x = speaker m")
    case True
    with Cons.prems have "filter (\<lambda>x. isPartial x \<and> id_msg x = id_msg m \<and> speaker x = speaker m) xs = []"
      by (auto simp add: list_all_iff filter_empty_conv)
    then show ?thesis using True assms(1)
      by (simp add: addMessage_partial_Cons [OF assms(1,2)])
  next
    case False
    then show ?thesis using Cons
      by (auto simp add: addMessage_partial_Cons [OF assms(1,2)])
  qed
qed

lemma addMessage_other_partials:
  assumes "isPartial m" "id_msg m \<noteq> ''''"
  shows "filter (\<lambda>x. isPartial x \<and> \<not> (id_msg x = id_msg m \<and> speaker x = speaker m)) (addMessage m ms)
           = filter (\<lambda>x. isPartial x \<and> \<not> (id_msg x = id_msg m \<and> speaker x = speaker m)) ms"
  by (induction ms) (auto simp add: addMessage_partial_Nil [OF assms] addMessage_partial_Cons [OF assms])

lemma partialsLead_append_final:
  "partialsLead ms \<Longrightarrow> \<not> isPartial m \<Longrightarrow> partialsLead (ms @ [m])"
  by (induction ms) auto

lemma partialsLead_filter: "partialsLead ms \<Longrightarrow> partialsLead (filter Q ms)"
  by (induction ms) (auto simp add: list_all_iff)


lemma afterMessage_inputPartial:
  assumes "t \<noteq> ''''"
  shows "afterMessage r d c (inputPartial t) s =
     s\<lparr>lastUserMessageIdRef :=
          (if lastUserMessageIdRef s = '''' then ''user-'' @ decimal (dateNowUser c)
           else lastUserMessageIdRef s),
       messages := addMessage
          \<lparr>id_msg = (if lastUserMessageIdRef s = '''' then ''user-'' @ decimal (dateNowUser c)
                      else lastUserMessageIdRef s),
           speaker = USER, text_msg = t, isPartial = True\<rparr> (messages s),
       currentInputTranscriptionRef := t, statusMessage := ''Listening...''\<rparr>"
  using assms
  by (simp add: afterMessage_def handleMessage_inputPartial handleInputTranscription_inputPartial)

lemma userPartials_open_partial:
  assumes "us \<noteq> []" "\<forall>(clock, t) \<in> set us. t \<noteq> ''''" "partialsLead (messages s)"
  shows "lastUserMessageIdRef (userPartials r d us s)
           = (if lastUserMessageIdRef s = '''' then ''user-'' @ decimal (dateNowUser (fst (hd us)))
              else lastUserMessageIdRef s)
       \<and> currentInputTranscriptionRef (userPartials r d us s) = snd (last us)
       \<and> filter (\<lambda>m. isPartial m \<and> id_msg m = lastUserMessageIdRef (userPartials r d us s)
                     \<and> speaker m = USER) (messages (userPartials r d us s))
           = [\<lparr>id_msg = lastUserMessageIdRef (userPartials r d us s), speaker = USER,
               text_msg = snd (last us), isPartial = True\<rparr>]
       \<and> filter (\<lambda>m. isPartial m \<and> \<not> (id_msg m = lastUserMessageIdRef (userPartials r d us s)
                     \<and> speaker m = USER)) (messages (userPartials r d us s))
           = filter (\<lambda>m. isPartial m \<and> \<not> (id_msg m = lastUserMessageIdRef (userPartials r d us s)
                     \<and> speaker m = USER)) (messages s)
       \<and> partialsLead (messages (userPartials r d us s))"
  using assms
proof (induction us arbitrary: s rule: list_nonempty_induct)
  case (single u)
  obtain c t where u: "u = (c, t)" by (cases u)
  let ?X = "if lastUserMessageIdRef s = '''' then ''user-'' @ decimal (dateNowUser c)
            else lastUserMessageIdRef s"
  let ?m = "\<lparr>id_msg = ?X, speaker = USER, text_msg = t, isPartial = True\<rparr>"
  from single u have t: "t \<noteq> ''''" by simp
  have x: "?X \<noteq> ''''" by simp
  have p: "isPartial ?m" "id_msg ?m \<noteq> ''''" using x by simp_all
  note step = afterMessage_inputPartial [OF t, of r d c s]
  show ?case
    unfolding u userPartials.simps step
    using partialsLead_addMessage [OF p single.prems(2)]
      addMessage_open_partial [OF p single.prems(2)]
      addMessage_other_partials [OF p, of "messages s"]
    by simp
next
  case (cons u us)
  obtain c t where u: "u = (c, t)" by (cases u)
  let ?X = "if lastUserMessageIdRef s = '''' then ''user-'' @ decimal (dateNowUser c)
            else lastUserMessageIdRef s"
  let ?m = "\<lparr>id_msg = ?X, speaker = USER, text_msg = t, isPartial = True\<rparr>"
  let ?s1 = "afterMessage r d c (inputPartial t) s"
  from cons.prems u have t: "t \<noteq> ''''" by simp
  have x: "?X \<noteq> ''''" by simp
  have p: "isPartial ?m" "id_msg ?m \<noteq> ''''" using x by simp_all
  note step = afterMessage_inputPartial [OF t, of r d c s]
  have id1: "lastUserMessageIdRef ?s1 = ?X" and msgs1: "messages ?s1 = addMessage ?m (messages s)"
    by (simp_all add: step)
  have inv1: "partialsLead (messages ?s1)"
    unfolding msgs1 by (rule partialsLead_addMessage [OF p cons.prems(2)])
  have rest: "\<forall>(clock, t) \<in> set us. t \<noteq> ''''" using cons.prems(1) by simp
  note ih = cons.IH [OF rest inv1]
  have run: "userPartials r d (u # us) s = userPartials r d us ?s1" by (simp add: u)
  have idn: "lastUserMessageIdRef (userPartials r d us ?s1) = ?X"
    using ih x by (simp add: id1)
  have others: "filter (\<lambda>m. isPartial m \<and> \<not> (id_msg m = ?X \<and> speaker m = USER)) (messages ?s1)
      = filter (\<lambda>m. isPartial m \<and> \<not> (id_msg m = ?X \<and> speaker m = USER)) (messages s)"
    unfolding msgs1 using addMessage_other_partials [OF p, of "messages s"] by simp
  let ?U = "userPartials r d us ?s1"
  from ih have ih2: "currentInputTranscriptionRef ?U = snd (last us)"
    and ih3: "filter (\<lambda>m. isPartial m \<and> id_msg m = lastUserMessageIdRef ?U \<and> speaker m = USER)
               (messages ?U)
             = [\<lparr>id_msg = lastUserMessageIdRef ?U, speaker = USER, text_msg = snd (last us),
                 isPartial = True\<rparr>]"
    and ih4: "filter (\<lambda>m. isPartial m \<and> \<not> (id_msg m = lastUserMessageIdRef ?U \<and> speaker m = USER))
               (messages ?U)
             = filter (\<lambda>m. isPartial m \<and> \<not> (id_msg m = lastUserMessageIdRef ?U \<and> speaker m = USER))
                 (messages ?s1)"
    and ih5: "partialsLead (messages ?U)"
    by blast+
  have g1: "lastUserMessageIdRef ?U
      = (if lastUserMessageIdRef s = '''' then ''user-'' @ decimal (dateNowUser (fst (hd (u # us))))
         else lastUserMessageIdRef s)"
    unfolding idn by (simp add: u)
  have g2: "currentInputTranscriptionRef ?U = snd (last (u # us))"
    using ih2 cons.hyps by simp
  have g3: "filter (\<lambda>m. isPartial m \<and> id_msg m = lastUserMessageIdRef ?U \<and> speaker m = USER)
               (messages ?U)
             = [\<lparr>id_msg = lastUserMessageIdRef ?U, speaker = USER, text_msg = snd (last (u # us)),
                 isPartial = True\<rparr>]"
    using ih3 cons.hyps by simp
  have g4: "filter (\<lambda>m. isPartial m \<and> \<not> (id_msg m = lastUserMessageIdRef ?U \<and> speaker m = USER))
               (messages ?U)
             = filter (\<lambda>m. isPartial m \<and> \<not> (id_msg m = lastUserMessageIdRef ?U \<and> speaker m = USER))
                 (messages s)"
    using ih4 others unfolding idn by simp
  show ?case
    unfolding run by (intro conjI g1 g2 g3 g4 ih5)
qed

lemma afterMessage_outputPartial:
  assumes "t \<noteq> ''''"
  shows "afterMessage r d c (outputPartial t) s =
     s\<lparr>lastModelMessageIdRef :=
          (if lastModelMessageIdRef s = '''' then ''model-'' @ decimal (dateNowModel c)
           else lastModelMessageIdRef s),
       messages := addMessage
          \<lparr>id_msg = (if lastModelMessageIdRef s = '''' then ''model-'' @ decimal (dateNowModel c)
                      else lastModelMessageIdRef s),
           speaker = MODEL, text_msg = t, isPartial = True\<rparr> (messages s),
       currentOutputTranscriptionRef := t, statusMessage := ''Speaking...''\<rparr>"
  using assms
  by (simp add: afterMessage_def handleMessage_outputPartial handleOutputTranscription_outputPartial)

lemma modelPartials_open_partial:
  assumes "us \<noteq> []" "\<forall>(clock, t) \<in> set us. t \<noteq> ''''" "partialsLead (messages s)"
  shows "lastModelMessageIdRef (modelPartials r d us s)
           = (if lastModelMessageIdRef s = '''' then ''model-'' @ decimal (dateNowModel (fst (hd us)))
              else lastModelMessageIdRef s)
       \<and> currentOutputTranscriptionRef (modelPartials r d us s) = snd (last us)
       \<and> filter (\<lambda>m. isPartial m \<and> id_msg m = lastModelMessageIdRef (modelPartials r d us s)
                     \<and> speaker m = MODEL) (messages (modelPartials r d us s))
           = [\<lparr>id_msg = lastModelMessageIdRef (modelPartials r d us s), speaker = MODEL,
               text_msg = snd (last us), isPartial = True\<rparr>]
       \<and> filter (\<lambda>m. isPartial m \<and> \<not> (id_msg m = lastModelMessageIdRef (modelPartials r d us s)
                     \<and> speaker m = MODEL)) (messages (modelPartials r d us s))
           = filter (\<lambda>m. isPartial m \<and> \<not> (id_msg m = lastModelMessageIdRef (modelPartials r d us s)
                     \<and> speaker m = MODEL)) (messages s)
       \<and> partialsLead (messages (modelPartials r d us s))"
  using assms
proof (induction us arbitrary: s rule: list_nonempty_induct)
  case (single u)
  obtain c t where u: "u = (c, t)" by (cases u)
  let ?X = "if lastModelMessageIdRef s = '''' then ''model-'' @ decimal (dateNowModel c)
            else lastModelMessageIdRef s"
  let ?m = "\<lparr>id_msg = ?X, speaker = MODEL, text_msg = t, isPartial = True\<rparr>"
  from single u have t: "t \<noteq> ''''" by simp
  have x: "?X \<noteq> ''''" by simp
  have p: "isPartial ?m" "id_msg ?m \<noteq> ''''" using x by simp_all
  note step = afterMessage_outputPartial [OF t, of r d c s]
  show ?case
    unfolding u modelPartials.simps step
    using partialsLead_addMessage [OF p single.prems(2)]
      addMessage_open_partial [OF p single.prems(2)]
      addMessage_other_partials [OF p, of "messages s"]
    by simp
next
  case (cons u us)
  obtain c t where u: "u = (c, t)" by (cases u)
  let ?X = "if lastModelMessageIdRef s = '''' then ''model-'' @ decimal (dateNowModel c)
            else lastModelMessageIdRef s"
  let ?m = "\<lparr>id_msg = ?X, speaker = MODEL, text_msg = t, isPartial = True\<rparr>"
  let ?s1 = "afterMessage r d c (outputPartial t) s"
  from cons.prems u have t: "t \<noteq> ''''" by simp
  have x: "?X \<noteq> ''''" by simp
  have p: "isPartial ?m" "id_msg ?m \<noteq> ''''" using x by simp_all
  note step = afterMessage_outputPartial [OF t, of r d c s]
  have id1: "lastModelMessageIdRef ?s1 = ?X" and msgs1: "messages ?s1 = addMessage ?m (messages s)"
    by (simp_all add: step)
  have inv1: "partialsLead (messages ?s1)"
    unfolding msgs1 by (rule partialsLead_addMessage [OF p cons.prems(2)])
  have rest: "\<forall>(clock, t) \<in> set us. t \<noteq> ''''" using cons.prems(1) by simp
  note ih = cons.IH [OF rest inv1]
  have run: "modelPartials r d (u # us) s = modelPartials r d us ?s1" by (simp add: u)
  have idn: "lastModelMessageIdRef (modelPartials r d us ?s1) = ?X"
    using ih x by (simp add: id1)
  have others: "filter (\<lambda>m. isPartial m \<and> \<not> (id_msg m = ?X \<and> speaker m = MODEL)) (messages ?s1)
      = filter (\<lambda>m. isPartial m \<and> \<not> (id_msg m = ?X \<and> speaker m = MODEL)) (messages s)"
    unfolding msgs1 using addMessage_other_partials [OF p, of "messages s"] by simp
  let ?U = "modelPartials r d us ?s1"
  from ih have ih2: "currentOutputTranscriptionRef ?U = snd (last us)"
    and ih3: "filter (\<lambda>m. isPartial m \<and> id_msg m = lastModelMessageIdRef ?U \<and> speaker m = MODEL)
               (messages ?U)
             = [\<lparr>id_msg = lastModelMessageIdRef ?U, speaker = MODEL, text_msg = snd (last us),
                 isPartial = True\<rparr>]"
    and ih4: "filter (\<lambda>m. isPartial m \<and> \<not> (id_msg m = lastModelMessageIdRef ?U \<and> speaker m = MODEL))
               (messages ?U)
             = filter (\<lambda>m. isPartial m \<and> \<not> (id_msg m = lastModelMessageIdRef ?U \<and> speaker m = MODEL))
                 (messages ?s1)"
    and ih5: "partialsLead (messages ?U)"
    by blast+
  have g1: "lastModelMessageIdRef ?U
      = (if lastModelMessageIdRef s = '''' then ''model-'' @ decimal (dateNowModel (fst (hd (u # us))))
         else lastModelMessageIdRef s)"
    unfolding idn by (simp add: u)
  have g2: "currentOutputTranscriptionRef ?U = snd (last (u # us))"
    using ih2 cons.hyps by simp
  have g3: "filter (\<lambda>m. isPartial m \<and> id_msg m = lastModelMessageIdRef ?U \<and> speaker m = MODEL)
               (messages ?U)
             = [\<lparr>id_msg = lastModelMessageIdRef ?U, speaker = MODEL, text_msg = snd (last (u # us)),
                 isPartial = True\<rparr>]"
    using ih3 cons.hyps by simp
  have g4: "filter (\<lambda>m. isPartial m \<and> \<not> (id_msg m = lastModelMessageIdRef ?U \<and> speaker m = MODEL))
               (messages ?U)
             = filter (\<lambda>m. isPartial m \<and> \<not> (id_msg m = lastModelMessageIdRef ?U \<and> speaker m = MODEL))
                 (messages s)"
    using ih4 others unfolding idn by simp
  show ?case
    unfolding run by (intro conjI g1 g2 g3 g4 ih5)
qed


lemma only_open_partial:
  assumes "filter (\<lambda>m. isPartial m \<and> \<not> (id_msg m = X \<and> speaker m = sp)) ms'
             = filter (\<lambda>m. isPartial m \<and> \<not> (id_msg m = X \<and> speaker m = sp)) ms"
    and "filter (\<lambda>m. isPartial m \<and> speaker m = sp \<and> id_msg m \<noteq> X) ms = []"
  shows "filter (\<lambda>m. isPartial m \<and> speaker m = sp) ms'
           = filter (\<lambda>m. isPartial m \<and> id_msg m = X \<and> speaker m = sp) ms'"
proof (rule filter_cong [OF refl])
  fix m assume "m \<in> set ms'"
  show "(isPartial m \<and> speaker m = sp) = (isPartial m \<and> id_msg m = X \<and> speaker m = sp)"
  proof (cases "isPartial m \<and> speaker m = sp \<and> id_msg m \<noteq> X")
    case True
    with \<open>m \<in> set ms'\<close>
    have "m \<in> set (filter (\<lambda>m. isPartial m \<and> \<not> (id_msg m = X \<and> speaker m = sp)) ms')" by simp
    then have "m \<in> set (filter (\<lambda>m. isPartial m \<and> \<not> (id_msg m = X \<and> speaker m = sp)) ms)"
      by (simp only: assms(1))
    with True have "m \<in> set (filter (\<lambda>m. isPartial m \<and> speaker m = sp \<and> id_msg m \<noteq> X) ms)"
      by simp
    then show ?thesis by (simp only: assms(2)) simp
  next
    case False
    then show ?thesis by blast
  qed
qed

text \<open>
  What holds of a run of partial-transcription updates of one speaker, each with a
  non-empty text (the handler applies an update only then), from a state whose transcript
  satisfies the invariant above. After the run, and so after each update, a run being any
  non-empty sequence: the speaker's slot holds the id it held before the run or, when it was empty,
  the id allocated at the first update; exactly one partial message of the transcript has
  that id and speaker, and its text is the text supplied last, not a concatenation; the
  other partial messages of the transcript are the ones it held before the run. So this
  is the speaker's only partial message unless the transcript already held a partial
  message of the speaker under another id. Stated for the user's updates, then for the
  model's.
\<close>

lemma partial_updates_last_write_wins:
  assumes "us \<noteq> []" "\<forall>(clock, t) \<in> set us. t \<noteq> ''''" "partialsLead (messages s)"
  shows "(let s' = userPartials r d us s;
          X = (if lastUserMessageIdRef s = '''' then ''user-'' @ decimal (dateNowUser (fst (hd us)))
               else lastUserMessageIdRef s) in
      lastUserMessageIdRef s' = X \<and> X \<noteq> ''''
    \<and> currentInputTranscriptionRef s' = snd (last us)
    \<and> filter (\<lambda>m. isPartial m \<and> id_msg m = X \<and> speaker m = USER) (messages s')
        = [\<lparr>id_msg = X, speaker = USER, text_msg = snd (last us), isPartial = True\<rparr>]
    \<and> filter (\<lambda>m. isPartial m \<and> \<not> (id_msg m = X \<and> speaker m = USER)) (messages s')
        = filter (\<lambda>m. isPartial m \<and> \<not> (id_msg m = X \<and> speaker m = USER)) (messages s)
    \<and> (filter (\<lambda>m. isPartial m \<and> speaker m = USER \<and> id_msg m \<noteq> X) (messages s) = [] \<longrightarrow>
         filter (\<lambda>m. isPartial m \<and> speaker m = USER) (messages s')
         = [\<lparr>id_msg = X, speaker = USER, text_msg = snd (last us), isPartial = True\<rparr>])
    \<and> partialsLead (messages s'))
 \<and> (let s' = modelPartials r d us s;
          X = (if lastModelMessageIdRef s = '''' then ''model-'' @ decimal (dateNowModel (fst (hd us)))
               else lastModelMessageIdRef s) in
      lastModelMessageIdRef s' = X \<and> X \<noteq> ''''
    \<and> currentOutputTranscriptionRef s' = snd (last us)
    \<and> filter (\<lambda>m. isPartial m \<and> id_msg m = X \<and> speaker m = MODEL) (messages s')
        = [\<lparr>id_msg = X, speaker = MODEL, text_msg = snd (last us), isPartial = True\<rparr>]
    \<and> filter (\<lambda>m. isPartial m \<and> \<not> (id_msg m = X \<and> speaker m = MODEL)) (messages s')
        = filter (\<lambda>m. isPartial m \<and> \<not> (id_msg m = X \<and> speaker m = MODEL)) (messages s)
    \<and> (filter (\<lambda>m. isPartial m \<and> speaker m = MODEL \<and> id_msg m \<noteq> X) (messages s) = [] \<longrightarrow>
         filter (\<lambda>m. isPartial m \<and> speaker m = MODEL) (messages s')
         = [\<lparr>id_msg = X, speaker = MODEL, text_msg = snd (last us), isPartial = True\<rparr>])
    \<and> partialsLead (messages s'))"
  (is "?user \<and> ?model")
proof -
  have "?user"
  proof -
    let ?s' = "userPartials r d us s"
    let ?X = "if lastUserMessageIdRef s = '''' then ''user-'' @ decimal (dateNowUser (fst (hd us)))
              else lastUserMessageIdRef s"
    note run = userPartials_open_partial [OF assms, of r d]
    from run have id: "lastUserMessageIdRef ?s' = ?X" by blast
    have x: "?X \<noteq> ''''" by simp
    from run have cur: "currentInputTranscriptionRef ?s' = snd (last us)" by blast
    from run have "filter (\<lambda>m. isPartial m \<and> id_msg m = lastUserMessageIdRef ?s' \<and> speaker m = USER)
                (messages ?s')
              = [\<lparr>id_msg = lastUserMessageIdRef ?s', speaker = USER, text_msg = snd (last us),
                  isPartial = True\<rparr>]"
      by blast
    then have one: "filter (\<lambda>m. isPartial m \<and> id_msg m = ?X \<and> speaker m = USER) (messages ?s')
              = [\<lparr>id_msg = ?X, speaker = USER, text_msg = snd (last us), isPartial = True\<rparr>]"
      unfolding id .
    from run have "filter (\<lambda>m. isPartial m \<and> \<not> (id_msg m = lastUserMessageIdRef ?s' \<and> speaker m = USER))
                (messages ?s')
              = filter (\<lambda>m. isPartial m \<and> \<not> (id_msg m = lastUserMessageIdRef ?s' \<and> speaker m = USER))
                  (messages s)"
      by blast
    then have others: "filter (\<lambda>m. isPartial m \<and> \<not> (id_msg m = ?X \<and> speaker m = USER)) (messages ?s')
              = filter (\<lambda>m. isPartial m \<and> \<not> (id_msg m = ?X \<and> speaker m = USER)) (messages s)"
      unfolding id .
    from run have inv: "partialsLead (messages ?s')" by blast
    have only: "filter (\<lambda>m. isPartial m \<and> speaker m = USER) (messages ?s')
         = [\<lparr>id_msg = ?X, speaker = USER, text_msg = snd (last us), isPartial = True\<rparr>]"
      if "filter (\<lambda>m. isPartial m \<and> speaker m = USER \<and> id_msg m \<noteq> ?X) (messages s) = []"
      using only_open_partial [OF others that] one by simp
    show ?thesis
      unfolding Let_def by (intro conjI impI id x cur one others only inv)
  qed
  moreover
  have "?model"
  proof -
    let ?s' = "modelPartials r d us s"
    let ?X = "if lastModelMessageIdRef s = '''' then ''model-'' @ decimal (dateNowModel (fst (hd us)))
              else lastModelMessageIdRef s"
    note run = modelPartials_open_partial [OF assms, of r d]
    from run have id: "lastModelMessageIdRef ?s' = ?X" by blast
    have x: "?X \<noteq> ''''" by simp
    from run have cur: "currentOutputTranscriptionRef ?s' = snd (last us)" by blast
    from run have "filter (\<lambda>m. isPartial m \<and> id_msg m = lastModelMessageIdRef ?s' \<and> speaker m = MODEL)
                (messages ?s')
              = [\<lparr>id_msg = lastModelMessageIdRef ?s', speaker = MODEL, text_msg = snd (last us),
                  isPartial = True\<rparr>]"
      by blast
    then have one: "filter (\<lambda>m. isPartial m \<and> id_msg m = ?X \<and> speaker m = MODEL) (messages ?s')
              = [\<lparr>id_msg = ?X, speaker = MODEL, text_msg = snd (last us), isPartial = True\<rparr>]"
      unfolding id .
    from run have "filter (\<lambda>m. isPartial m \<and> \<not> (id_msg m = lastModelMessageIdRef ?s' \<and> speaker m = MODEL))
                (messages ?s')
              = filter (\<lambda>m. isPartial m \<and> \<not> (id_msg m = lastModelMessageIdRef ?s' \<and> speaker m = MODEL))
                  (messages s)"
      by blast
    then have others: "filter (\<lambda>m. isPartial m \<and> \<not> (id_msg m = ?X \<and> speaker m = MODEL)) (messages ?s')
              = filter (\<lambda>m. isPartial m \<and> \<not> (id_msg m = ?X \<and> speaker m = MODEL)) (messages s)"
      unfolding id .
    from run have inv: "partialsLead (messages ?s')" by blast
    have only: "filter (\<lambda>m. isPartial m \<and> speaker m = MODEL) (messages ?s')
         = [\<lparr>id_msg = ?X, speaker = MODEL, text_msg = snd (last us), isPartial = True\<rparr>]"
      if "filter (\<lambda>m. isPartial m \<and> speaker m = MODEL \<and> id_msg m \<noteq> ?X) (messages s) = []"
      using only_open_partial [OF others that] one by simp
    show ?thesis
      unfolding Let_def by (intro conjI impI id x cur one others only inv)
  qed
  ultimately show ?thesis by (rule conjI)
qed


text \<open>On the connecting session, whose transcript is empty: after the user's texts \<open>He\<close> and
  \<open>Hello\<close> the transcript holds one partial message of the user.\<close>

lemma partial_updates_on_connectingApp:
  "partialsLead (messages connectingApp)
   \<and> filter (\<lambda>m. isPartial m \<and> speaker m = USER)
        (messages (userPartials False halfSecondPerChar
            [(clockAt 7 0, ''He''), (clockAt 8 0, ''Hello'')] connectingApp))
      = [\<lparr>id_msg = ''user-7'', speaker = USER, text_msg = ''Hello'', isPartial = True\<rparr>]"
proof -
  let ?us = "[(clockAt 7 0, ''He''), (clockAt 8 0, ''Hello'')]"
  have c: "messages connectingApp = []" "lastUserMessageIdRef connectingApp = ''''"
    by (simp_all add: connectingApp_def startInterview_def initialApp_def setMessages_def
        clearPartialMessages_def)
  have inv: "partialsLead (messages connectingApp)" by (simp add: c)
  have ne: "?us \<noteq> []" by simp
  have ok: "\<forall>(clock, t) \<in> set ?us. t \<noteq> ''''" by simp
  note th = partial_updates_last_write_wins [OF ne ok inv, of False halfSecondPerChar, unfolded Let_def]
  from th have "filter (\<lambda>m. isPartial m \<and> speaker m = USER \<and> id_msg m \<noteq>
         (if lastUserMessageIdRef connectingApp = ''''
          then ''user-'' @ decimal (dateNowUser (fst (hd ?us)))
          else lastUserMessageIdRef connectingApp)) (messages connectingApp) = [] \<longrightarrow>
       filter (\<lambda>m. isPartial m \<and> speaker m = USER)
         (messages (userPartials False halfSecondPerChar ?us connectingApp))
       = [\<lparr>id_msg = (if lastUserMessageIdRef connectingApp = ''''
                      then ''user-'' @ decimal (dateNowUser (fst (hd ?us)))
                      else lastUserMessageIdRef connectingApp),
           speaker = USER, text_msg = snd (last ?us), isPartial = True\<rparr>]"
    by (elim conjE)
  then have "filter (\<lambda>m. isPartial m \<and> speaker m = USER)
         (messages (userPartials False halfSecondPerChar ?us connectingApp))
       = [\<lparr>id_msg = ''user-7'', speaker = USER, text_msg = ''Hello'', isPartial = True\<rparr>]"
    by (simp add: c clockAt_def decimal.simps)
  with inv show ?thesis by (rule conjI)
qed

text \<open>The invariant holds on the freshly mounted component and after every start and
  stop, and every handled message keeps it, whether or not the handler throws.\<close>

lemma partialsLead_handleInputTranscription:
  "partialsLead (messages s) \<Longrightarrow> partialsLead (messages (handleInputTranscription n m s))"
  by (auto simp add: handleInputTranscription_def setMessages_def Let_def partialsLead_addMessage
      split: option.splits)

lemma partialsLead_handleOutputTranscription:
  "partialsLead (messages s) \<Longrightarrow> partialsLead (messages (handleOutputTranscription n m s))"
  by (auto simp add: handleOutputTranscription_def setMessages_def Let_def partialsLead_addMessage
      split: option.splits)

lemma partialsLead_finals: "list_all (\<lambda>m. \<not> isPartial m) fs \<Longrightarrow> partialsLead fs"
  by (induction fs) (auto simp add: list_all_iff)

lemma partialsLead_append_finals:
  "partialsLead ms \<Longrightarrow> list_all (\<lambda>m. \<not> isPartial m) fs \<Longrightarrow> partialsLead (ms @ fs)"
  by (induction ms) (auto simp add: list_all_iff partialsLead_finals)

lemma partialsLead_handleTurnComplete:
  assumes "partialsLead (messages s)"
  shows "partialsLead (messages (handleTurnComplete r m s))"
proof (cases m)
  case None
  then show ?thesis using assms by (simp add: handleTurnComplete_def)
next
  case (Some content)
  show ?thesis
  proof (cases "turnComplete content")
    case True
    show ?thesis
      unfolding Some handleTurnComplete_flag_messages [OF True]
      by (rule partialsLead_append_finals [OF assms]) simp
  next
    case False
    then show ?thesis using assms Some by (simp add: handleTurnComplete_def)
  qed
qed

lemma partialsLead_handleInterrupted:
  "partialsLead (messages s) \<Longrightarrow> partialsLead (messages (handleInterrupted m s))"
  by (auto simp add: handleInterrupted_def setMessages_def Let_def clearPartialMessages_def
      partialsLead_filter split: option.splits)

lemma partialsLead_afterMessage:
  assumes "partialsLead (messages s)"
  shows "partialsLead (messages (afterMessage r d c m s))"
proof -
  let ?s2 = "handleOutputTranscription (dateNowModel c) m
               (handleInputTranscription (dateNowUser c) m s)"
  let ?s3 = "snd (processAudio d (currentTime c) m ?s2)"
  have 2: "partialsLead (messages ?s2)"
    by (intro partialsLead_handleOutputTranscription partialsLead_handleInputTranscription assms)
  then have 3: "partialsLead (messages ?s3)" by simp
  have "afterMessage r d c m s = ?s3
        \<or> afterMessage r d c m s = handleInterrupted m (handleTurnComplete r m ?s3)"
    by (simp add: afterMessage_def handleMessage_def Let_def split: prod.splits option.splits)
  then show ?thesis
    using 3 partialsLead_handleInterrupted [OF partialsLead_handleTurnComplete [OF 3]]
    by auto
qed

lemma partialsLead_fresh:
  "partialsLead (messages initialApp)"
  "partialsLead (messages (stopInterview msgs i t s))"
  "partialsLead (messages (startInterview msgs i t denied1 denied2 s))"
proof -
  show "partialsLead (messages initialApp)" by (simp add: initialApp_def)
  have stop: "messages (stopInterview msgs i t s) = []" for msgs i t s
    using stopInterview_stopped [of msgs i t s] by (simp add: stopped_def)
  show "partialsLead (messages (stopInterview msgs i t s))" by (simp add: stop)
  show "partialsLead (messages (startInterview msgs i t denied1 denied2 s))"
    by (simp add: startInterview_def failedToStart_def stop Let_def setMessages_def
        clearPartialMessages_def split: option.splits)
qed

section \<open>Finalized turns in the transcript\<close>

lemma openedApp_reconciler:
  "messages (onopen (resolveSession 0 connectingApp)) = []"
  "lastUserMessageIdRef (onopen (resolveSession 0 connectingApp)) = ''''"
  "lastModelMessageIdRef (onopen (resolveSession 0 connectingApp)) = ''''"
  "currentInputTranscriptionRef (onopen (resolveSession 0 connectingApp)) = ''''"
  "currentOutputTranscriptionRef (onopen (resolveSession 0 connectingApp)) = ''''"
  by (simp_all add: onopen_def resolveSession_def onPromise_def connectingApp_def
      startInterview_def initialApp_def setMessages_def clearPartialMessages_def)

lemma afterMessage_outputPartial_fields:
  assumes "t \<noteq> ''''"
  shows "messages (afterMessage r d c (outputPartial t) s) =
       addMessage \<lparr>id_msg = (if lastModelMessageIdRef s = '''' then ''model-'' @ decimal (dateNowModel c)
                      else lastModelMessageIdRef s),
           speaker = MODEL, text_msg = t, isPartial = True\<rparr> (messages s)"
    "lastModelMessageIdRef (afterMessage r d c (outputPartial t) s) =
       (if lastModelMessageIdRef s = '''' then ''model-'' @ decimal (dateNowModel c)
        else lastModelMessageIdRef s)"
    "currentOutputTranscriptionRef (afterMessage r d c (outputPartial t) s) = t"
    "lastUserMessageIdRef (afterMessage r d c (outputPartial t) s) = lastUserMessageIdRef s"
    "currentInputTranscriptionRef (afterMessage r d c (outputPartial t) s)
       = currentInputTranscriptionRef s"
  by (simp_all add: afterMessage_outputPartial [OF assms])

lemma afterMessage_turnCompleteSignal_fields:
  "messages (afterMessage r d c turnCompleteSignal s) = messages s
     @ (if currentInputTranscriptionRef s \<noteq> '''' then
          [\<lparr>id_msg = lastUserMessageIdRef s, speaker = USER,
            text_msg = currentInputTranscriptionRef s, isPartial = False\<rparr>] else [])
     @ (if currentOutputTranscriptionRef s \<noteq> '''' then
          [\<lparr>id_msg = lastModelMessageIdRef s, speaker = MODEL,
            text_msg = currentOutputTranscriptionRef s, isPartial = False\<rparr>] else [])"
  "lastModelMessageIdRef (afterMessage r d c turnCompleteSignal s) =
     (if currentOutputTranscriptionRef s \<noteq> '''' then '''' else lastModelMessageIdRef s)"
  "lastUserMessageIdRef (afterMessage r d c turnCompleteSignal s) =
     (if currentInputTranscriptionRef s \<noteq> '''' then '''' else lastUserMessageIdRef s)"
  "currentInputTranscriptionRef (afterMessage r d c turnCompleteSignal s) = ''''"
  "currentOutputTranscriptionRef (afterMessage r d c turnCompleteSignal s) = ''''"
  by (simp_all add: afterMessage_def handleMessage_turnCompleteSignal handleTurnComplete_messages
      handleTurnComplete_slots)

text \<open>
  C6, evaluated on the scenario of the specification: the model's partial texts \<open>Hello\<close>
  and \<open>Hello there\<close> arrive, then the turn-complete signal. \<open>addMessage\<close> looks for a
  message to replace only when the new message is partial, so the finalized message is
  appended and the partial one stays: the transcript holds a partial and a finalized
  message of the same id and speaker, and with the next utterance it holds two partial
  messages of the model.
\<close>

theorem finalized_turn_keeps_its_partial:
  "messages helloThereApp =
     [\<lparr>id_msg = ''model-20'', speaker = MODEL, text_msg = ''Hello there'', isPartial = True\<rparr>,
      \<lparr>id_msg = ''model-20'', speaker = MODEL, text_msg = ''Hello there'', isPartial = False\<rparr>]
   \<and> messages (afterMessage False halfSecondPerChar (clockAt 23 0) (outputPartial ''Yo'')
        helloThereApp) =
     [\<lparr>id_msg = ''model-20'', speaker = MODEL, text_msg = ''Hello there'', isPartial = True\<rparr>,
      \<lparr>id_msg = ''model-20'', speaker = MODEL, text_msg = ''Hello there'', isPartial = False\<rparr>,
      \<lparr>id_msg = ''model-23'', speaker = MODEL, text_msg = ''Yo'', isPartial = True\<rparr>]"
  by (simp add: helloThereApp_def afterMessage_outputPartial_fields
      afterMessage_turnCompleteSignal_fields openedApp_reconciler addMessage_def clockAt_def
      decimal.simps)


text \<open>With two messages handled in the same millisecond the id of a finalized message is
  allocated again; the next partial update then replaces the finalized message.\<close>

lemma finalized_overwritten_on_id_collision:
  "messages (afterMessage False halfSecondPerChar (clockAt 50 0) (Some collidingContent)
       (onopen (resolveSession 0 connectingApp)))
     = [\<lparr>id_msg = ''model-50'', speaker = MODEL, text_msg = ''a'', isPartial = False\<rparr>]
   \<and> messages (afterMessage False halfSecondPerChar (clockAt 50 0) (outputPartial ''b'')
        (afterMessage False halfSecondPerChar (clockAt 50 0) (Some collidingContent)
           (onopen (resolveSession 0 connectingApp))))
     = [\<lparr>id_msg = ''model-50'', speaker = MODEL, text_msg = ''b'', isPartial = True\<rparr>]"
proof -
  let ?s0 = "onopen (resolveSession 0 connectingApp)"
  let ?s1 = "afterMessage False halfSecondPerChar (clockAt 50 0) (Some collidingContent) ?s0"
  have h: "fst (handleMessage False halfSecondPerChar (clockAt 50 0) (Some collidingContent) ?s0) = None"
    by (simp add: handleMessage_throws processAudio_def base64EncodedAudioString_def
        collidingContent_def)
  have m: "messages ?s1 = [\<lparr>id_msg = ''model-50'', speaker = MODEL, text_msg = ''a'', isPartial = False\<rparr>]"
    and i: "lastModelMessageIdRef ?s1 = ''''"
    unfolding handleMessage_completes [OF h]
    by (simp_all add: handleInterrupted_def handleTurnComplete_def handleOutputTranscription_def
        handleInputTranscription_def processAudio_def base64EncodedAudioString_def
        collidingContent_def setMessages_def clearPartialMessages_def addMessage_def Let_def
        openedApp_reconciler clockAt_def decimal.simps)
  have ne: "''b'' \<noteq> ''''" by simp
  show ?thesis
    by (simp only: afterMessage_outputPartial_fields [OF ne] m i)
       (simp add: addMessage_def clockAt_def decimal.simps)
qed

section \<open>Partial updates after a finalized turn\<close>

lemma afterMessage_inputPartial_fields:
  assumes "t \<noteq> ''''"
  shows "messages (afterMessage r d c (inputPartial t) s) =
       addMessage \<lparr>id_msg = (if lastUserMessageIdRef s = '''' then ''user-'' @ decimal (dateNowUser c)
                      else lastUserMessageIdRef s),
           speaker = USER, text_msg = t, isPartial = True\<rparr> (messages s)"
    "lastUserMessageIdRef (afterMessage r d c (inputPartial t) s) =
       (if lastUserMessageIdRef s = '''' then ''user-'' @ decimal (dateNowUser c)
        else lastUserMessageIdRef s)"
    "currentInputTranscriptionRef (afterMessage r d c (inputPartial t) s) = t"
    "lastModelMessageIdRef (afterMessage r d c (inputPartial t) s) = lastModelMessageIdRef s"
    "currentOutputTranscriptionRef (afterMessage r d c (inputPartial t) s)
       = currentOutputTranscriptionRef s"
  by (simp_all add: afterMessage_inputPartial [OF assms])

lemma hiApp_reconciler:
  "messages hiApp =
     [\<lparr>id_msg = ''user-7'', speaker = USER, text_msg = ''hi'', isPartial = True\<rparr>,
      \<lparr>id_msg = ''user-7'', speaker = USER, text_msg = ''hi'', isPartial = False\<rparr>]"
  "lastUserMessageIdRef hiApp = ''''"
  by (simp_all add: hiApp_def afterMessage_inputPartial_fields
      afterMessage_turnCompleteSignal_fields openedApp_reconciler addMessage_def clockAt_def
      decimal.simps)

text \<open>
  C5, evaluated where it fails. The user's partial text \<open>hi\<close> arrives at millisecond 7 and
  the turn is completed: the finalized message is appended and the partial message
  \<open>user-7\<close> stays in the transcript, the speaker's slot being cleared. The partial texts
  \<open>yo\<close> and \<open>yoyo\<close> of the next utterance arrive: the first update allocates the id
  \<open>user-9\<close> and appends a partial message, the second replaces its text. After each of
  the two updates the transcript holds two partial messages of the user, not one; the
  text of the newer one is the text supplied last.
\<close>

theorem second_utterance_adds_a_partial:
  "messages hiApp =
     [\<lparr>id_msg = ''user-7'', speaker = USER, text_msg = ''hi'', isPartial = True\<rparr>,
      \<lparr>id_msg = ''user-7'', speaker = USER, text_msg = ''hi'', isPartial = False\<rparr>]
   \<and> filter (\<lambda>m. isPartial m \<and> speaker m = USER)
       (messages (userPartials False halfSecondPerChar [(clockAt 9 0, ''yo'')] hiApp))
     = [\<lparr>id_msg = ''user-7'', speaker = USER, text_msg = ''hi'', isPartial = True\<rparr>,
        \<lparr>id_msg = ''user-9'', speaker = USER, text_msg = ''yo'', isPartial = True\<rparr>]
   \<and> filter (\<lambda>m. isPartial m \<and> speaker m = USER)
       (messages (userPartials False halfSecondPerChar
          [(clockAt 9 0, ''yo''), (clockAt 10 0, ''yoyo'')] hiApp))
     = [\<lparr>id_msg = ''user-7'', speaker = USER, text_msg = ''hi'', isPartial = True\<rparr>,
        \<lparr>id_msg = ''user-9'', speaker = USER, text_msg = ''yoyo'', isPartial = True\<rparr>]"
  by (simp add: afterMessage_inputPartial_fields hiApp_reconciler addMessage_def clockAt_def
      decimal.simps)

end
